theory Spec2Isabelle
  imports Complex_Main "HOL-Library.Log_Nat" "HOL-Library.Monad_Syntax"
begin

section \<open>The band-gap statistics helper\<close>

text \<open>
  The notebook on the Strehlow and Cook band gaps defines one helper, \<open>stats(ds)\<close>.
  It reads the entries of its argument with \<open>ds.samples('all')\<close>, counts those with
  temperature information, with crystallinity information and with both, and prints
  four lines. The total it prints is read from the notebook's global \<open>bg1\<close>.

  Python distinguishes the identity of two objects (\<open>is\<close>) from their equality
  (\<open>==\<close>), and \<open>stats\<close> uses both on the crystallinity field. Objects are therefore
  references into a store: \<open>is\<close> compares the references, \<open>==\<close> the stored values.
\<close>

type_synonym ref = nat

type_synonym 'v store = "ref \<Rightarrow> 'v"

text \<open>
  An entry is a dictionary; \<open>stats\<close> reads its keys \<open>temperature\<close> (\<open>None\<close> when
  unknown) and \<open>crystallinity\<close> (an object, compared with the class constant
  \<open>CRYSTALLINITY_NONE\<close>).
\<close>

record 't entry =
  temperature :: "'t option"
  crystallinity :: ref

text \<open>The exceptions that the code of the notebooks can raise.\<close>

datatype py_error = ZeroDivisionError | OverflowError | ValueError | TypeError

text \<open>
  A printed line, before formatting: the total, or a count with its share of the total
  (the quotient the format \<open>4.1%\<close> is applied to) and the number of entries without.
\<close>

datatype line =
    Compounds int
  | Share string int real int

text \<open>
  The dataset class is not part of the notebooks: its method \<open>samples\<close> and its
  constant \<open>CRYSTALLINITY_NONE\<close> are parameters, and so is the global \<open>bg1\<close>.
  The result is what was printed and the exception that ended the call, if any: with
  an empty \<open>bg1\<close> the first line is printed and the division \<open>ntp/n\<close> raises.
\<close>

definition stats ::
  "('ds \<Rightarrow> string \<Rightarrow> 't entry list) \<Rightarrow> 'v store \<Rightarrow> ref \<Rightarrow> 'ds \<Rightarrow> 'ds \<Rightarrow> line list \<times> py_error option"
where
  "stats samples_of store CRYSTALLINITY_NONE bg1 ds =
    (let data = samples_of ds ''all'';
         n = int (length (samples_of bg1 ''all''));
         ntp = int (length [e \<leftarrow> data. temperature e \<noteq> None]);
         ncr = int (length [e \<leftarrow> data. store (crystallinity e) \<noteq> store CRYSTALLINITY_NONE]);
         ntc = int (length [e \<leftarrow> data. temperature e \<noteq> None
                                         \<and> crystallinity e \<noteq> CRYSTALLINITY_NONE])
     in if n = 0 then ([Compounds n], Some ZeroDivisionError)
        else ([Compounds n,
               Share ''temperature'' ntp (real_of_int ntp / real_of_int n) (n - ntp),
               Share ''crystallinity'' ncr (real_of_int ncr / real_of_int n) (n - ncr),
               Share ''both'' ntc (real_of_int ntc / real_of_int n) (n - ntc)], None))"

text \<open>The datasets of the examples below are their own entry lists.\<close>

definition entries_of :: "'t entry list \<Rightarrow> string \<Rightarrow> 't entry list" where
  "entries_of ds which = ds"

section \<open>Floating-point numbers\<close>

text \<open>
  The panel and the watercolor notebook compute the sizes of their sample sets in double
  precision. A float is one of the special values or a finite number, kept as the real
  number it stands for; every operation rounds its exact result to the nearest double,
  a tie to the one with the even significand. The two zeros are not told apart (no
  result here depends on the sign of a zero).
\<close>

datatype npfloat = Fin real | PosInf | NegInf | NaN

text \<open>
  Python's \<open>round\<close> of a float, and the rounding of a significand: to the nearest
  integer, a tie to the even one.
\<close>

definition py_round :: "real \<Rightarrow> int" where
  "py_round x =
    (let f = \<lfloor>x\<rfloor>; d = x - real_of_int f
     in if d < 1 / 2 then f else if 1 / 2 < d then f + 1 else if even f then f else f + 1)"

text \<open>
  The binary exponent of a number other than zero, that is the floor of the logarithm to
  base 2 of its absolute value: from the number of bits of the integer part, or of the
  reciprocal for a number below one. The spacing of the doubles around \<open>x\<close> is
  \<open>2 ^ (e - 52)\<close>, with the exponent \<open>e\<close> not below that of the least normal number.
  \<open>rne\<close> rounds to a multiple of the spacing; \<open>rnd\<close> gives infinity when the rounded
  number is beyond the largest double.
\<close>

definition expo :: "real \<Rightarrow> int" where
  "expo x = (let a = \<bar>x\<bar> in if 1 \<le> a then bitlen \<lfloor>a\<rfloor> - 1 else - bitlen (\<lceil>1 / a\<rceil> - 1))"

definition ulp :: "real \<Rightarrow> real" where
  "ulp x = 2 powi (max (expo x) (- 1022) - 52)"

definition rne :: "real \<Rightarrow> real" where
  "rne x = real_of_int (py_round (x / ulp x)) * ulp x"

definition rnd :: "real \<Rightarrow> npfloat" where
  "rnd x = (let r = rne x in if 2 ^ 1024 \<le> \<bar>r\<bar> then (if 0 < r then PosInf else NegInf) else Fin r)"

fun np_neg :: "npfloat \<Rightarrow> npfloat" where
  "np_neg (Fin a) = Fin (- a)"
| "np_neg PosInf = NegInf"
| "np_neg NegInf = PosInf"
| "np_neg NaN = NaN"

fun np_add :: "npfloat \<Rightarrow> npfloat \<Rightarrow> npfloat" where
  "np_add (Fin a) (Fin b) = rnd (a + b)"
| "np_add NaN y = NaN"
| "np_add x NaN = NaN"
| "np_add PosInf NegInf = NaN"
| "np_add NegInf PosInf = NaN"
| "np_add PosInf y = PosInf"
| "np_add NegInf y = NegInf"
| "np_add x PosInf = PosInf"
| "np_add x NegInf = NegInf"

definition np_sub :: "npfloat \<Rightarrow> npfloat \<Rightarrow> npfloat" where
  "np_sub x y = np_add x (np_neg y)"

definition signed_inf :: "bool \<Rightarrow> npfloat" where
  "signed_inf positive = (if positive then PosInf else NegInf)"

text \<open>Zero times an infinity is not a number.\<close>

fun np_mul :: "npfloat \<Rightarrow> npfloat \<Rightarrow> npfloat" where
  "np_mul (Fin a) (Fin b) = rnd (a * b)"
| "np_mul NaN y = NaN"
| "np_mul x NaN = NaN"
| "np_mul (Fin a) PosInf = (if a = 0 then NaN else signed_inf (0 < a))"
| "np_mul (Fin a) NegInf = (if a = 0 then NaN else signed_inf (a < 0))"
| "np_mul PosInf (Fin b) = (if b = 0 then NaN else signed_inf (0 < b))"
| "np_mul NegInf (Fin b) = (if b = 0 then NaN else signed_inf (b < 0))"
| "np_mul PosInf PosInf = PosInf"
| "np_mul PosInf NegInf = NegInf"
| "np_mul NegInf PosInf = NegInf"
| "np_mul NegInf NegInf = PosInf"

text \<open>The division of arrays: a division by zero gives an infinity, or no number for zero.\<close>

fun np_div :: "npfloat \<Rightarrow> npfloat \<Rightarrow> npfloat" where
  "np_div (Fin a) (Fin b) =
    (if b = 0 then (if a = 0 then NaN else signed_inf (0 < a)) else rnd (a / b))"
| "np_div NaN y = NaN"
| "np_div x NaN = NaN"
| "np_div (Fin a) PosInf = Fin 0"
| "np_div (Fin a) NegInf = Fin 0"
| "np_div PosInf (Fin b) = signed_inf (0 \<le> b)"
| "np_div NegInf (Fin b) = signed_inf (b < 0)"
| "np_div PosInf y = NaN"
| "np_div NegInf y = NaN"

fun np_floor :: "npfloat \<Rightarrow> npfloat" where
  "np_floor (Fin x) = Fin (real_of_int \<lfloor>x\<rfloor>)"
| "np_floor x = x"

text \<open>
  Python's \<open>int\<close> of a float truncates towards zero; of an infinity it raises
  \<open>OverflowError\<close>, of a value that is not a number \<open>ValueError\<close>. So does \<open>round\<close>.
\<close>

fun py_int :: "npfloat \<Rightarrow> py_error + int" where
  "py_int (Fin x) = Inr (if 0 \<le> x then \<lfloor>x\<rfloor> else \<lceil>x\<rceil>)"
| "py_int NaN = Inl ValueError"
| "py_int x = Inl OverflowError"

fun py_round_float :: "npfloat \<Rightarrow> py_error + int" where
  "py_round_float (Fin x) = Inr (py_round x)"
| "py_round_float NaN = Inl ValueError"
| "py_round_float x = Inl OverflowError"

text \<open>
  In a product of a float and a Python integer the integer is converted to a float
  first: it is rounded to the nearest double, and \<open>OverflowError\<close> is raised when that
  is beyond the largest double (from \<open>2 ^ 1024 - 2 ^ 970\<close> on).
\<close>

definition float_of_int :: "int \<Rightarrow> py_error + real" where
  "float_of_int n =
    (let r = rne (real_of_int n) in if 2 ^ 1024 \<le> \<bar>r\<bar> then Inl OverflowError else Inr r)"

definition float_times_int :: "npfloat \<Rightarrow> int \<Rightarrow> py_error + npfloat" where
  "float_times_int x n =
    (case float_of_int n of Inl e \<Rightarrow> Inl e | Inr y \<Rightarrow> Inr (np_mul x (Fin y)))"

text \<open>
  Python's \<open>min(a, b)\<close> of a float and an integer is \<open>b\<close> when \<open>b < a\<close> and \<open>a\<close>
  otherwise; a comparison with a value that is not a number is false.
\<close>

fun py_min :: "npfloat \<Rightarrow> int \<Rightarrow> npfloat" where
  "py_min (Fin x) b = (if real_of_int b < x then Fin (real_of_int b) else Fin x)"
| "py_min PosInf b = Fin (real_of_int b)"
| "py_min x b = x"

text \<open>
  The logarithm and the power are computed by the mathematical library of the platform,
  which the IEEE standard does not fix to the last bit: \<open>log10\<close> is what it returns for a
  positive finite number, \<open>pow10 y\<close> what it returns for 10 to the power of a finite \<open>y\<close>.
  The special cases are those of \<open>np.log10\<close> and \<open>np.power\<close>: the logarithm of zero
  is minus infinity, that of a negative number is not a number (both with a warning).
\<close>

record libm =
  log10 :: "real \<Rightarrow> real"
  pow10 :: "real \<Rightarrow> npfloat"

fun np_log10 :: "libm \<Rightarrow> npfloat \<Rightarrow> npfloat" where
  "np_log10 fp (Fin x) = (if 0 < x then Fin (log10 fp x) else if x = 0 then NegInf else NaN)"
| "np_log10 fp PosInf = PosInf"
| "np_log10 fp x = NaN"

text \<open>
  \<open>np.log10\<close> of a Python integer: an integer of 64 bits, signed or unsigned, is
  converted to a double; for a larger one \<open>TypeError\<close> is raised (the integer has no
  method \<open>log10\<close>).
\<close>

definition np_log10_int :: "libm \<Rightarrow> int \<Rightarrow> py_error + npfloat" where
  "np_log10_int fp k =
    (if - (2 ^ 63) \<le> k \<and> k < 2 ^ 64 then Inr (np_log10 fp (Fin (rne (real_of_int k))))
     else Inl TypeError)"

fun np_power10 :: "libm \<Rightarrow> npfloat \<Rightarrow> npfloat" where
  "np_power10 fp (Fin y) = pow10 fp y"
| "np_power10 fp PosInf = PosInf"
| "np_power10 fp NegInf = Fin 0"
| "np_power10 fp NaN = NaN"

text \<open>
  The cast of an array to \<open>int\<close> truncates towards zero. A value that is not finite, or
  whose integer does not fit into 64 bits, has no result in C; the cast yields the least
  64-bit integer for it, as the conversion instruction of x86-64 does.
\<close>

definition int64_min :: int where
  "int64_min = - (2 ^ 63)"

fun astype_int :: "npfloat \<Rightarrow> int" where
  "astype_int (Fin x) =
    (let t = (if 0 \<le> x then \<lfloor>x\<rfloor> else \<lceil>x\<rceil>)
     in if - (2 ^ 63) \<le> t \<and> t < 2 ^ 63 then t else int64_min)"
| "astype_int x = int64_min"

text \<open>
  \<open>np.linspace(start, stop, num)\<close> with its default end point: the numbers
  \<open>0, \<dots>, num - 1\<close> are multiplied by the step \<open>(stop - start) / (num - 1)\<close> (when the
  step is zero they are divided by \<open>num - 1\<close> and multiplied by \<open>stop - start\<close>
  instead), \<open>start\<close> is added, and the last element is set to \<open>stop\<close>.
  \<open>np.logspace(start, stop, num)\<close> raises 10 to these.
\<close>

definition linspace :: "npfloat \<Rightarrow> npfloat \<Rightarrow> nat \<Rightarrow> npfloat list" where
  "linspace start stop num =
    (let divisor = num - 1;
         delta = np_sub stop start;
         y = map (\<lambda>i. Fin (real i)) [0..<num];
         y = (if 0 < divisor
              then let step = np_div delta (Fin (real divisor))
                   in if step = Fin 0
                      then map (\<lambda>yi. np_mul (np_div yi (Fin (real divisor))) delta) y
                      else map (\<lambda>yi. np_mul yi step) y
              else map (\<lambda>yi. np_mul yi delta) y);
         y = map (\<lambda>yi. np_add yi start) y
     in if 1 < num then butlast y @ [stop] else y)"

definition logspace :: "libm \<Rightarrow> npfloat \<Rightarrow> npfloat \<Rightarrow> nat \<Rightarrow> npfloat list" where
  "logspace fp start stop num = map (np_power10 fp) (linspace start stop num)"

text \<open>
  A mathematical library is accurate, as far as the sizes need it, when its logarithm of
  a number between 1 and 500 is off by at most a millionth, and its power for an exponent
  between -1 and 3 is finite and off by at most a millionth of the power. (The libraries
  in use are accurate to the last bits of a double, which has about sixteen digits.)
\<close>

definition accurate :: "libm \<Rightarrow> bool" where
  "accurate fp \<longleftrightarrow>
     (\<forall>x. 1 \<le> x \<and> x \<le> 500 \<longrightarrow> \<bar>log10 fp x - log 10 x\<bar> \<le> 1 / 10 ^ 6)
   \<and> (\<forall>y. - 1 \<le> y \<and> y \<le> 3 \<longrightarrow>
          (\<exists>r. pow10 fp y = Fin r \<and> \<bar>r - 10 powr y\<bar> \<le> 10 powr y / 10 ^ 6))"

section \<open>Split sizes of the learning-curve panel\<close>

text \<open>
  The panel notebook computes the sizes of the validation set and of the training sets
  with \<open>calc_split_sizes\<close>, from the module-level constants
  \<open>validation_fraction, num_train_min, num_training_sets, max_size = 0.2, 10, 6, 500\<close>.
  The constant \<open>0.2\<close> is the double nearest to one fifth.
\<close>

definition validation_fraction :: real where
  "validation_fraction = rne (2 / 10)"

definition num_train_min :: int where
  "num_train_min = 10"

definition num_training_sets :: nat where
  "num_training_sets = 6"

definition max_size :: int where
  "max_size = 500"

text \<open>
  The argument is an integer or a dataset (\<open>isinstance(data, int)\<close>); of a dataset the
  attribute \<open>num_samples\<close> is read. The dataset classes are not part of the notebooks,
  so the attribute is a parameter. The validation size is a Python integer, capped by
  \<open>min\<close>; the largest training size stays a float, and \<open>min\<close> replaces it by the
  integer 500 when it exceeds that.
\<close>

datatype 'ds int_or_dataset = An_int int | A_dataset 'ds

definition calc_split_sizes ::
  "libm \<Rightarrow> ('ds \<Rightarrow> int) \<Rightarrow> 'ds int_or_dataset \<Rightarrow> py_error + int \<times> int list"
where
  "calc_split_sizes fp num_samples_of data =
    (let num_samples = (case data of An_int k \<Rightarrow> k | A_dataset d \<Rightarrow> num_samples_of d)
     in case float_times_int (Fin validation_fraction) num_samples of
          Inl e \<Rightarrow> Inl e
        | Inr x \<Rightarrow>
     (case py_int (np_floor x) of
          Inl e \<Rightarrow> Inl e
        | Inr num_validation \<Rightarrow>
     let num_validation = min num_validation max_size
     in case float_times_int (np_sub (Fin 1) (Fin validation_fraction)) num_samples of
          Inl e \<Rightarrow> Inl e
        | Inr x \<Rightarrow>
     let num_train_max = np_floor x;
         num_train_max = py_min num_train_max max_size;
         num_training = map astype_int
           (logspace fp (np_log10 fp (Fin (real_of_int num_train_min))) (np_log10 fp num_train_max)
              num_training_sets)
     in Inr (num_validation, num_training)))"

section \<open>The notebooks as programs over library objects\<close>

text \<open>
  The notebooks construct objects of the library by keyword arguments and call their
  methods. The classes themselves are not part of the notebooks, so an instance is
  known by its class and by the keyword arguments of its construction. Functions and
  values from outside the library (a lambda, \<open>np.median\<close>, a plotting surface, a
  kernel) are kept by their source text, quotation marks dropped.
\<close>

text \<open>The classes of the library that the notebooks instantiate.\<close>

datatype cls =
    BandGapsStrehlowCook1973Dataset
  | SuperconductorsCitrine2016Dataset
  | CleanEnergyProjectDataset
  | Friedman1979Data
  | FriedmanSilverman1989Data
  | Schwefel261981Data
  | WatercolorPigments2019Dataset
  | WatercolorPigments2019DatasetFeatures
  | MatminerCompositionFeatures
  | IdentityFeatures
  | RandomSubsetSampler
  | GridSampler
  | RandomVectorSampler
  | GaussianProcessRegressionSklearn
  | RandomForestRegressionSklearn
  | ExtremelyRandomizedTreesRegressionSklearn
  | GradientBoostedTreesRegressionSklearn
  | RandomForestRegressionLolo
  | LearningCurveRegression
  | LearningCurvePlot
  | PlotConfiguration
  | Random

text \<open>
  The keywords of their constructions; \<open>kw_size\<close> is the keyword \<open>size\<close>, and
  \<open>kw_filter\<close> is \<open>filter_\<close>.
\<close>

datatype kw =
    kw_filter | kw_join | kw_samplef | kw_labelf | kw_process | kw_source | kw_dimensions
  | kw_ionic_fast
  | kw_size | kw_domain | kw_rng
  | kw_random_state | kw_kernel | kw_uncertainties
  | kw_target | kw_rectify | kw_configuration | kw_axes_labels | kw_font_size
  | kw_data | kw_features | kw_training | kw_validation | kw_learners | kw_evaluations

datatype pyval =
    PNone
  | PInt int
  | PBool bool
  | PStr string
  | PSeq "pyval list"
  | PFun string
  | PExt string
  | PObj cls "(kw \<times> pyval) list"

text \<open>
  The methods and attributes of instances that the notebooks use; \<open>m_run\<close> is
  \<open>run()\<close>. \<open>samples\<close> is called without an argument and as \<open>samples('all')\<close>:
  \<open>m_samples\<close> holds the arguments.
\<close>

datatype meth =
  m_run | m_samples "pyval list" | m_labels | m_num_samples | m_auxiliary | m_random

text \<open>The value itself and every value nested in it.\<close>

fun parts :: "pyval \<Rightarrow> pyval list" where
  "parts (PSeq xs) = PSeq xs # concat (map parts xs)"
| "parts (PObj c kws) = PObj c kws # concat (map (\<lambda>kv. parts (snd kv)) kws)"
| "parts v = [v]"

definition is_instance :: "cls list \<Rightarrow> pyval \<Rightarrow> bool" where
  "is_instance classes v = (case v of PObj c kws \<Rightarrow> c \<in> set classes | _ \<Rightarrow> False)"

definition keyword_names :: "pyval \<Rightarrow> kw list" where
  "keyword_names v = (case v of PObj c kws \<Rightarrow> map fst kws | _ \<Rightarrow> [])"

definition argument :: "pyval \<Rightarrow> kw \<Rightarrow> pyval option" where
  "argument v k = (case v of PObj c kws \<Rightarrow> map_of kws k | _ \<Rightarrow> None)"

text \<open>
  What a notebook does with the instances of the library, in the order of its cells: it
  constructs an object, or it calls a method (or reads an attribute) of one. What it
  reads of a class itself (the documentation \<open>__doc__\<close>, the constants
  \<open>COLOR_NAMES\<close> and \<open>CRYSTALLINITY_NONE\<close>) involves no instance and is not an
  event.
\<close>

datatype event = Construct pyval | Call pyval meth

text \<open>
  The places an object is passed to: the class and keyword of every construction that
  has the object in, or nested in, one of its arguments.
\<close>

definition passed_as :: "event list \<Rightarrow> pyval \<Rightarrow> (cls \<times> kw) list" where
  "passed_as tr v = [(c, k). Construct (PObj c kws) \<leftarrow> tr, (k, a) \<leftarrow> kws, v \<in> set (parts a)]"

definition sampler_classes :: "cls list" where
  "sampler_classes = [RandomSubsetSampler, GridSampler, RandomVectorSampler]"

definition learner_classes :: "cls list" where
  "learner_classes =
    [GaussianProcessRegressionSklearn, RandomForestRegressionSklearn,
     ExtremelyRandomizedTreesRegressionSklearn, GradientBoostedTreesRegressionSklearn,
     RandomForestRegressionLolo]"

definition dataset_classes :: "cls list" where
  "dataset_classes =
    [BandGapsStrehlowCook1973Dataset, SuperconductorsCitrine2016Dataset,
     CleanEnergyProjectDataset, Friedman1979Data, FriedmanSilverman1989Data,
     Schwefel261981Data, WatercolorPigments2019Dataset]"

definition workflow_classes :: "cls list" where
  "workflow_classes = [LearningCurveRegression]"

subsection \<open>The Friedman (1979) notebook\<close>

definition friedman_dataset :: pyval where
  "friedman_dataset = PObj Friedman1979Data [(kw_dimensions, PInt 5)]"

definition friedman_validation_set :: pyval where
  "friedman_validation_set =
    PObj GridSampler [(kw_size, PInt (7 ^ 5)), (kw_domain, PSeq [PInt 0, PInt 1]), (kw_rng, PInt 0)]"

definition friedman_training_sizes :: "int list" where
  "friedman_training_sizes = [10, 19, 37, 73, 143, 278, 542, 1056, 2055, 4000]"

definition friedman_training_sets_grid :: "pyval list" where
  "friedman_training_sets_grid =
    map (\<lambda>size. PObj GridSampler
                  [(kw_size, PInt size), (kw_domain, PSeq [PInt 0, PInt 1]), (kw_rng, PInt 0)])
      friedman_training_sizes"

definition friedman_learner_gpr_skl :: pyval where
  "friedman_learner_gpr_skl = PObj GaussianProcessRegressionSklearn [(kw_random_state, PInt 0)]"

definition friedman_learner_rf_skl :: pyval where
  "friedman_learner_rf_skl = PObj RandomForestRegressionSklearn [(kw_random_state, PInt 0)]"

definition friedman_workflow_1 :: pyval where
  "friedman_workflow_1 =
    PObj LearningCurveRegression
      [(kw_data, friedman_dataset), (kw_training, PSeq friedman_training_sets_grid),
       (kw_validation, friedman_validation_set),
       (kw_learners, PSeq [friedman_learner_rf_skl, friedman_learner_gpr_skl])]"

definition friedman_training_sets_random :: "pyval list" where
  "friedman_training_sets_random =
    map (\<lambda>size. PObj RandomVectorSampler [(kw_size, PInt size), (kw_rng, PInt 0)])
      friedman_training_sizes"

definition friedman_learning_curve :: pyval where
  "friedman_learning_curve =
    PObj LearningCurvePlot
      [(kw_target, PExt ''ax''),
       (kw_axes_labels, PSeq [PStr ''training set size'', PStr ''root mean-squared error''])]"

definition friedman_workflow_2 :: pyval where
  "friedman_workflow_2 =
    PObj LearningCurveRegression
      [(kw_data, friedman_dataset), (kw_training, PSeq friedman_training_sets_random),
       (kw_validation, friedman_validation_set),
       (kw_learners, PSeq [friedman_learner_rf_skl, friedman_learner_gpr_skl]),
       (kw_evaluations, PSeq [friedman_learning_curve])]"

definition friedman_notebook :: "event list" where
  "friedman_notebook =
    [Construct friedman_dataset, Construct friedman_validation_set]
    @ map Construct friedman_training_sets_grid
    @ [Construct friedman_learner_gpr_skl, Construct friedman_learner_rf_skl,
       Construct friedman_workflow_1, Call friedman_workflow_1 m_run]
    @ map Construct friedman_training_sets_random
    @ [Construct friedman_learning_curve,
       Construct friedman_workflow_2, Call friedman_workflow_2 m_run]"

subsection \<open>The watercolor pigments notebook\<close>

definition watercolor_dataset_primary :: pyval where
  "watercolor_dataset_primary = PObj WatercolorPigments2019Dataset [(kw_filter, PStr ''primary'')]"

definition watercolor_dataset :: pyval where
  "watercolor_dataset =
    PObj WatercolorPigments2019Dataset [(kw_labelf, PFun ''lambda arg: arg[0]'')]"

definition watercolor_features :: pyval where
  "watercolor_features = PObj WatercolorPigments2019DatasetFeatures []"

text \<open>
  The sizes, \<open>n, m = dataset.num_samples, round(dataset.num_samples * 0.15)\<close> and
  \<open>training_sizes = np.asarray(np.logspace(1, np.log10(n-m), num=6), dtype=int)\<close>.
  The attribute \<open>num_samples\<close> is a parameter, as above; the constant \<open>0.15\<close> is
  the double nearest to it. Both lines can raise.
\<close>

definition watercolor_fraction :: real where
  "watercolor_fraction = rne (15 / 100)"

definition watercolor_m :: "(pyval \<Rightarrow> int) \<Rightarrow> py_error + int" where
  "watercolor_m num_samples_of =
    (case float_times_int (Fin watercolor_fraction) (num_samples_of watercolor_dataset) of
       Inl e \<Rightarrow> Inl e
     | Inr x \<Rightarrow> py_round_float x)"

definition watercolor_training_sizes :: "libm \<Rightarrow> int \<Rightarrow> int \<Rightarrow> py_error + int list" where
  "watercolor_training_sizes fp n m =
    (case np_log10_int fp (n - m) of
       Inl e \<Rightarrow> Inl e
     | Inr stop \<Rightarrow> Inr (map astype_int (logspace fp (Fin 1) stop 6)))"

definition watercolor_validation :: "int \<Rightarrow> pyval" where
  "watercolor_validation m =
    PObj RandomSubsetSampler [(kw_size, PInt m), (kw_rng, PInt 0)]"

definition watercolor_training :: "int list \<Rightarrow> pyval list" where
  "watercolor_training training_sizes =
    map (\<lambda>n. PObj RandomSubsetSampler [(kw_size, PInt n), (kw_rng, PInt 0)]) training_sizes"

definition watercolor_learner_gpr_skl :: pyval where
  "watercolor_learner_gpr_skl =
    PObj GaussianProcessRegressionSklearn [(kw_kernel, PExt ''kernel''), (kw_random_state, PInt 0)]"

definition watercolor_learner_rf_skl :: pyval where
  "watercolor_learner_rf_skl = PObj RandomForestRegressionSklearn [(kw_random_state, PInt 0)]"

definition watercolor_learner_ert_skl :: pyval where
  "watercolor_learner_ert_skl =
    PObj ExtremelyRandomizedTreesRegressionSklearn
      [(kw_random_state, PInt 0), (kw_uncertainties, PStr ''naive'')]"

definition watercolor_learning_curve :: pyval where
  "watercolor_learning_curve =
    PObj LearningCurvePlot
      [(kw_target, PExt ''ax''),
       (kw_axes_labels, PSeq [PStr ''training set size'', PStr ''root mean-squared error''])]"

definition watercolor_workflow :: "int \<Rightarrow> int list \<Rightarrow> pyval" where
  "watercolor_workflow m training_sizes =
    PObj LearningCurveRegression
      [(kw_data, watercolor_dataset), (kw_features, watercolor_features),
       (kw_training, PSeq (watercolor_training training_sizes)),
       (kw_validation, watercolor_validation m),
       (kw_learners, PSeq [watercolor_learner_rf_skl, watercolor_learner_ert_skl,
                            watercolor_learner_gpr_skl]),
       (kw_evaluations, PSeq [watercolor_learning_curve])]"

text \<open>The events of the notebook when it runs through, given the sizes.\<close>

definition watercolor_events :: "int \<Rightarrow> int list \<Rightarrow> event list" where
  "watercolor_events m training_sizes =
    [Construct watercolor_dataset_primary,
     Call watercolor_dataset_primary (m_samples []), Call watercolor_dataset_primary m_labels,
     Construct watercolor_dataset, Construct watercolor_features,
     Call watercolor_dataset m_num_samples, Call watercolor_dataset m_num_samples,
     Construct (watercolor_validation m)]
    @ map Construct (watercolor_training training_sizes)
    @ [Construct watercolor_learner_gpr_skl, Construct watercolor_learner_rf_skl,
       Construct watercolor_learner_ert_skl, Construct watercolor_learning_curve,
       Construct (watercolor_workflow m training_sizes),
       Call (watercolor_workflow m training_sizes) m_run]"

text \<open>The notebook stops at an exception: \<open>None\<close>.\<close>

definition watercolor_notebook :: "libm \<Rightarrow> (pyval \<Rightarrow> int) \<Rightarrow> event list option" where
  "watercolor_notebook fp num_samples_of =
    (case watercolor_m num_samples_of of
       Inl e \<Rightarrow> None
     | Inr m \<Rightarrow>
         (case watercolor_training_sizes fp (num_samples_of watercolor_dataset) m of
            Inl e \<Rightarrow> None
          | Inr training_sizes \<Rightarrow> Some (watercolor_events m training_sizes)))"

subsection \<open>The band-gap notebook\<close>

definition bandgap_bg1 :: pyval where
  "bandgap_bg1 = PObj BandGapsStrehlowCook1973Dataset [(kw_filter, PStr ''bg'')]"

text \<open>The call \<open>stats(bg1)\<close> reads \<open>ds.samples('all')\<close> and \<open>bg1.samples('all')\<close>.\<close>

definition bandgap_notebook :: "event list" where
  "bandgap_notebook =
    [Construct bandgap_bg1,
     Call bandgap_bg1 (m_samples [PStr ''all'']), Call bandgap_bg1 (m_samples [PStr ''all''])]"

subsection \<open>The learning-curve panel notebook\<close>

text \<open>
  The panel constructs a generator, \<open>prng = smlb.Random(rng=0)\<close>, and draws its seeds
  with \<open>seeds.pop()\<close> from the list \<open>seeds = list(np.flip(prng.random.split(100)))\<close>,
  which the library computes; the list is a parameter. Popping from an empty list raises
  \<open>IndexError\<close>, and \<open>calc_split_sizes\<close> can raise: the notebook stops at an
  exception, here \<open>None\<close>.
\<close>

definition panel_prng :: pyval where
  "panel_prng = PObj Random [(kw_rng, PInt 0)]"

definition pop :: "'a list \<Rightarrow> ('a \<times> 'a list) option" where
  "pop xs = (if xs = [] then None else Some (last xs, butlast xs))"

text \<open>The comprehension \<open>[Sampler(size=m, rng=seeds.pop()) for m in sizes]\<close>.\<close>

fun samplers_for :: "cls \<Rightarrow> int list \<Rightarrow> int list \<Rightarrow> (pyval list \<times> int list) option" where
  "samplers_for cls [] seeds = Some ([], seeds)"
| "samplers_for cls (m # ms) seeds =
    do {
      (s, seeds) \<leftarrow> pop seeds;
      (xs, seeds) \<leftarrow> samplers_for cls ms seeds;
      Some (PObj cls [(kw_size, PInt m), (kw_rng, PInt s)] # xs, seeds)
    }"

text \<open>The nested comprehension \<open>[[Sampler(size=n, rng=seeds.pop()) for n in nn] for nn in sizes]\<close>.\<close>

fun sampler_rows :: "cls \<Rightarrow> int list list \<Rightarrow> int list \<Rightarrow> (pyval list list \<times> int list) option" where
  "sampler_rows cls [] seeds = Some ([], seeds)"
| "sampler_rows cls (nn # nns) seeds =
    do {
      (row, seeds) \<leftarrow> samplers_for cls nn seeds;
      (rows, seeds) \<leftarrow> sampler_rows cls nns seeds;
      Some (row # rows, seeds)
    }"

text \<open>The file name of the clean energy project data is computed from the home directory.\<close>

definition panel_datasets :: "string \<Rightarrow> pyval list list" where
  "panel_datasets cep_filename =
    [[PObj BandGapsStrehlowCook1973Dataset
        [(kw_filter, PStr ''bg''), (kw_join, PInt 1),
         (kw_samplef, PFun ''lambda e: e[formula]''), (kw_labelf, PFun ''np.median'')],
      PObj SuperconductorsCitrine2016Dataset
        [(kw_process, PBool True), (kw_join, PBool True),
         (kw_filter, PFun ''lambda e: not any(e[flagged_formula])''),
         (kw_samplef, PFun ''lambda e: e[formula]''),
         (kw_labelf, PFun ''lambda tc: np.median(tc)'')],
      PObj CleanEnergyProjectDataset
        [(kw_source, PStr cep_filename), (kw_join, PBool True),
         (kw_samplef, PFun ''lambda e: e[formula]''),
         (kw_labelf, PFun ''lambda e: np.median(e[gap])'')]],
     [PObj Friedman1979Data [(kw_dimensions, PInt 6)],
      PObj FriedmanSilverman1989Data [(kw_dimensions, PInt 10)],
      PObj Schwefel261981Data [(kw_dimensions, PInt 15)]]]"

definition panel_features :: "pyval list list" where
  "panel_features =
    [[PObj MatminerCompositionFeatures [(kw_ionic_fast, PBool True)],
      PObj MatminerCompositionFeatures [(kw_ionic_fast, PBool True)],
      PObj MatminerCompositionFeatures [(kw_ionic_fast, PBool True)]],
     [PObj IdentityFeatures [], PObj IdentityFeatures [], PObj IdentityFeatures []]]"

text \<open>What a call returned, when it raised no exception.\<close>

definition returned :: "py_error + 'a \<Rightarrow> 'a option" where
  "returned r = (case r of Inl e \<Rightarrow> None | Inr x \<Rightarrow> Some x)"

text \<open>The comprehension \<open>[calc_split_sizes(...) for data in row]\<close>, in the order of the row.\<close>

fun split_sizes_for ::
  "libm \<Rightarrow> (pyval \<Rightarrow> int) \<Rightarrow> pyval int_or_dataset list \<Rightarrow> (int \<times> int list) list option"
where
  "split_sizes_for fp num_samples_of [] = Some []"
| "split_sizes_for fp num_samples_of (data # row) =
    do {
      sizes \<leftarrow> returned (calc_split_sizes fp num_samples_of data);
      rest \<leftarrow> split_sizes_for fp num_samples_of row;
      Some (sizes # rest)
    }"

definition panel_split_sizes ::
  "libm \<Rightarrow> (pyval \<Rightarrow> int) \<Rightarrow> string \<Rightarrow> (int \<times> int list) list list option"
where
  "panel_split_sizes fp num_samples_of cep_filename =
    do {
      row0 \<leftarrow> split_sizes_for fp num_samples_of (map A_dataset (panel_datasets cep_filename ! 0));
      row1 \<leftarrow> split_sizes_for fp num_samples_of (map (\<lambda>_. An_int 650) (panel_datasets cep_filename ! 1));
      Some [row0, row1]
    }"

definition panel_learners :: "int list \<Rightarrow> (pyval list \<times> int list) option" where
  "panel_learners seeds =
    do {
      (s1, seeds) \<leftarrow> pop seeds;
      (s2, seeds) \<leftarrow> pop seeds;
      (s3, seeds) \<leftarrow> pop seeds;
      Some ([PObj RandomForestRegressionSklearn [(kw_random_state, PInt s1)],
             PObj ExtremelyRandomizedTreesRegressionSklearn [(kw_random_state, PInt s2)],
             PObj GradientBoostedTreesRegressionSklearn [(kw_random_state, PInt s3)],
             PObj RandomForestRegressionLolo []], seeds)
    }"

definition panel_cfg :: pyval where
  "panel_cfg = PObj PlotConfiguration [(kw_font_size, PInt 10)]"

definition panel_plot :: "nat \<Rightarrow> nat \<Rightarrow> pyval" where
  "panel_plot row col =
    PObj LearningCurvePlot
      [(kw_target, PSeq [PExt ''ax'', PInt (int row), PInt (int col)]),
       (kw_rectify, PBool True),
       (kw_configuration, panel_cfg),
       (kw_axes_labels,
          PSeq [if row = 1 then PStr ''training set size'' else PNone,
                if col = 0 then PStr ''Root Mean Squared Error'' else PNone])]"

definition panel_workflow ::
  "pyval list list \<Rightarrow> pyval list list list \<Rightarrow> pyval list list \<Rightarrow> pyval list \<Rightarrow> nat \<Rightarrow> nat \<Rightarrow> pyval"
where
  "panel_workflow datasets training_samplers validation_samplers learners row col =
    PObj LearningCurveRegression
      [(kw_data, datasets ! row ! col),
       (kw_features, panel_features ! row ! col),
       (kw_training, PSeq (training_samplers ! row ! col)),
       (kw_validation, validation_samplers ! row ! col),
       (kw_learners, PSeq learners),
       (kw_evaluations, PSeq [panel_plot row col])]"

text \<open>
  The cells after the samplers and learners are constructed: the plots, one workflow per
  dataset, constructed and run in the loop over rows and columns, and the reading of
  the plots' auxiliary results. The events of the whole notebook are listed in the
  order of its cells.
\<close>

definition panel_events ::
  "string \<Rightarrow> pyval list list \<Rightarrow> pyval list list list \<Rightarrow> pyval list \<Rightarrow> event list"
where
  "panel_events cep_filename validation_samplers training_samplers learners =
    (let datasets = panel_datasets cep_filename;
         cells = concat (map (\<lambda>row. map (\<lambda>col. (row, col)) [0..<3]) [0..<2]);
         plots = map (\<lambda>(row, col). panel_plot row col) cells;
         workflows = map (\<lambda>(row, col).
             panel_workflow datasets training_samplers validation_samplers learners row col) cells
     in [Construct panel_prng, Call panel_prng m_random]
        @ map Construct (concat datasets)
        @ map Construct (concat panel_features)
        @ map (\<lambda>data. Call data m_num_samples) (datasets ! 0)
        @ map Construct (concat validation_samplers)
        @ map Construct (concat (concat training_samplers))
        @ map Construct learners
        @ [Construct panel_cfg]
        @ map Construct plots
        @ concat (map (\<lambda>workflow. [Construct workflow, Call workflow m_run]) workflows)
        @ map (\<lambda>plot. Call plot m_auxiliary) (panel_plot 0 0 # plots))"

definition panel_notebook ::
  "libm \<Rightarrow> int list \<Rightarrow> (pyval \<Rightarrow> int) \<Rightarrow> string \<Rightarrow> event list option"
where
  "panel_notebook fp seeds num_samples_of cep_filename =
    do {
      split_sizes \<leftarrow> panel_split_sizes fp num_samples_of cep_filename;
      (v0, seeds) \<leftarrow> samplers_for RandomSubsetSampler (map fst (split_sizes ! 0)) seeds;
      (v1, seeds) \<leftarrow> samplers_for RandomVectorSampler (map fst (split_sizes ! 1)) seeds;
      (t0, seeds) \<leftarrow> sampler_rows RandomSubsetSampler (map snd (split_sizes ! 0)) seeds;
      (t1, seeds) \<leftarrow> sampler_rows RandomVectorSampler (map snd (split_sizes ! 1)) seeds;
      (learners, seeds) \<leftarrow> panel_learners seeds;
      Some (panel_events cep_filename [v0, v1] [t0, t1] learners)
    }"

subsection \<open>What the notebooks do with an object\<close>

text \<open>
  The four notebooks; \<open>watercolor\<close> and \<open>panel\<close> are the events of these two when they
  run through.
\<close>

definition notebooks :: "event list \<Rightarrow> event list \<Rightarrow> event list list" where
  "notebooks watercolor panel = [bandgap_notebook, friedman_notebook, watercolor, panel]"

definition supplies :: "kw list \<Rightarrow> pyval \<Rightarrow> bool" where
  "supplies ks v = list_all (\<lambda>k. k \<in> set (keyword_names v)) ks"

definition holds_instance :: "cls list \<Rightarrow> pyval \<Rightarrow> bool" where
  "holds_instance classes a = list_ex (is_instance classes) (parts a)"

text \<open>Every instance of the classes is constructed with the keywords \<open>ks\<close>.\<close>

definition constructed_with :: "cls list \<Rightarrow> kw list \<Rightarrow> event \<Rightarrow> bool" where
  "constructed_with classes ks e =
    (case e of
       Construct v \<Rightarrow> is_instance classes v \<longrightarrow> supplies ks v
     | Call t m \<Rightarrow> True)"

text \<open>
  An instance of the classes is passed to a workflow only, under one of the keywords
  \<open>ks\<close>, and the notebook calls no method of it.
\<close>

definition passed_only_as :: "cls list \<Rightarrow> kw list \<Rightarrow> event \<Rightarrow> bool" where
  "passed_only_as classes ks e =
    (case e of
       Construct (PObj c kws) \<Rightarrow>
         list_all (\<lambda>(k, a). holds_instance classes a \<longrightarrow> c \<in> set workflow_classes \<and> k \<in> set ks) kws
     | Construct _ \<Rightarrow> True
     | Call t m \<Rightarrow> \<not> is_instance classes t)"

text \<open>
  The object is in the argument \<open>key\<close> of a workflow that the notebook constructs and
  whose \<open>run()\<close> it calls.
\<close>

definition used_in_run :: "event list \<Rightarrow> kw list \<Rightarrow> pyval \<Rightarrow> bool" where
  "used_in_run tr ks v =
    list_ex (\<lambda>e. case e of
        Construct workflow \<Rightarrow>
          is_instance workflow_classes workflow
          \<and> list_ex (\<lambda>k. case argument workflow k of Some a \<Rightarrow> v \<in> set (parts a) | None \<Rightarrow> False) ks
          \<and> Call workflow m_run \<in> set tr
      | Call t m \<Rightarrow> False) tr"

definition used_where :: "cls list \<Rightarrow> kw list \<Rightarrow> event list \<Rightarrow> event \<Rightarrow> bool" where
  "used_where classes ks tr e =
    (case e of
       Construct v \<Rightarrow> is_instance classes v \<longrightarrow> used_in_run tr ks v
     | Call t m \<Rightarrow> True)"

text \<open>Every instance of the classes that the notebook constructs is used so.\<close>

definition all_used_in_run :: "cls list \<Rightarrow> kw list \<Rightarrow> event list \<Rightarrow> bool" where
  "all_used_in_run classes ks tr = list_all (used_where classes ks tr) tr"

text \<open>After the construction of a workflow its \<open>run()\<close> is called.\<close>

fun run_follows :: "event list \<Rightarrow> bool" where
  "run_follows [] = True"
| "run_follows (Construct v # es) =
    ((is_instance workflow_classes v \<longrightarrow> Call v m_run \<in> set es) \<and> run_follows es)"
| "run_follows (Call t m # es) = run_follows es"

text \<open>An instance of the classes is constructed with keywords among \<open>ks\<close> only.\<close>

definition constructed_only_with :: "cls list \<Rightarrow> kw list \<Rightarrow> event \<Rightarrow> bool" where
  "constructed_only_with classes ks e =
    (case e of
       Construct v \<Rightarrow> is_instance classes v \<longrightarrow> list_all (\<lambda>k. k \<in> set ks) (keyword_names v)
     | Call t m \<Rightarrow> True)"

text \<open>An instance of the classes is constructed with one or more of the keywords \<open>ks\<close>.\<close>

definition constructed_with_some :: "cls list \<Rightarrow> kw list \<Rightarrow> event \<Rightarrow> bool" where
  "constructed_with_some classes ks e =
    (case e of
       Construct v \<Rightarrow> is_instance classes v \<longrightarrow> list_ex (\<lambda>k. k \<in> set (keyword_names v)) ks
     | Call t m \<Rightarrow> True)"

definition seeded_learner_classes :: "cls list" where
  "seeded_learner_classes =
    [GaussianProcessRegressionSklearn, RandomForestRegressionSklearn,
     ExtremelyRandomizedTreesRegressionSklearn, GradientBoostedTreesRegressionSklearn]"

definition synthetic_dataset_classes :: "cls list" where
  "synthetic_dataset_classes = [Friedman1979Data, FriedmanSilverman1989Data, Schwefel261981Data]"

text \<open>The other datasets hold experimental or computed data.\<close>

definition tabulated_dataset_classes :: "cls list" where
  "tabulated_dataset_classes =
    [BandGapsStrehlowCook1973Dataset, SuperconductorsCitrine2016Dataset,
     CleanEnergyProjectDataset, WatercolorPigments2019Dataset]"

text \<open>A sampler as the comprehensions of the notebooks construct it.\<close>

definition sampler_of :: "cls \<Rightarrow> pyval \<Rightarrow> bool" where
  "sampler_of c x = (\<exists>m s. x = PObj c [(kw_size, PInt m), (kw_rng, PInt s)])"

text \<open>The properties of a single event that the statements about the notebooks share.\<close>

definition event_ok :: "event \<Rightarrow> bool" where
  "event_ok e \<longleftrightarrow>
     constructed_with workflow_classes [kw_data, kw_training, kw_validation, kw_learners] e
   \<and> constructed_with seeded_learner_classes [kw_random_state] e
   \<and> constructed_only_with [RandomForestRegressionLolo] [] e
   \<and> constructed_only_with learner_classes [kw_random_state, kw_kernel, kw_uncertainties] e
   \<and> passed_only_as learner_classes [kw_learners] e
   \<and> constructed_with sampler_classes [kw_size, kw_rng] e
   \<and> passed_only_as sampler_classes [kw_training, kw_validation] e
   \<and> constructed_only_with synthetic_dataset_classes [kw_dimensions] e
   \<and> constructed_with_some tabulated_dataset_classes [kw_filter, kw_labelf, kw_samplef] e"

section \<open>The library behind the notebooks, from the specification\<close>

text \<open>
  The notebooks import the workflow, the plot and the dataset classes from the library;
  their code is not among the source files. The specification describes their contracts
  as far as the notebooks show them. The definitions of this section follow its words.
\<close>

subsection \<open>The learning-curve workflow\<close>

text \<open>
  Modelled from the spec: the check that \<open>LearningCurveRegression.run()\<close> makes on the
  sample sets; the class (\<open>workflows/learning_curve_regression.py\<close>) is missing. The
  specification: "the library is reported to detect overlap between training and
  validation sample sets and to surface this as a warning/failure rather than silently
  producing a biased score". Whether the signal is a warning or an exception is left open
  there; it is one outcome here, and it names the first training set that shares a sample
  with the validation set.
\<close>

datatype run_signal = Overlap nat

text \<open>
  Modelled from the spec: the detection of the overlap, which is missing with the class.
  The training sets are looked at in order; \<open>i\<close> counts them.
\<close>

fun first_overlap :: "'s list \<Rightarrow> 's list list \<Rightarrow> nat \<Rightarrow> nat option" where
  "first_overlap v [] i = None"
| "first_overlap v (t # ts) i =
    (if list_ex (\<lambda>x. x \<in> set v) t then Some i else first_overlap v ts (Suc i))"

text \<open>
  Modelled from the spec: the class \<open>LearningCurvePlot\<close>, which is missing. The
  specification: it "exposes an \<open>auxiliary\<close> result containing per-learner asymptotic fit
  parameters (\<open>offset\<close>, \<open>slope\<close>) after \<open>run()\<close>"; the panel notebook reads them as
  \<open>plot.auxiliary['asymptotic_fits']\<close>, a sequence of dictionaries with the keys
  \<open>offset\<close> and \<open>slope\<close>. How the fit is computed is not specified: it is a field of
  the plot. A learning curve is a list of training-set sizes with the error reached.
\<close>

record plot =
  asymptotic_fit :: "(nat \<times> real) list \<Rightarrow> real \<times> real"
  auxiliary :: "(string \<rightharpoonup> (string \<rightharpoonup> real) list) option"

text \<open>
  Modelled from the spec: what the plot does with the learning curves that \<open>run()\<close>
  hands to it, one per learner; missing with the class.
\<close>

definition evaluate :: "(nat \<times> real) list list \<Rightarrow> plot \<Rightarrow> plot" where
  "evaluate curves p =
    p\<lparr>auxiliary :=
        Some [''asymptotic_fits'' \<mapsto>
          map (\<lambda>curve. case asymptotic_fit p curve of
                 (offset, slope) \<Rightarrow> [''offset'' \<mapsto> offset, ''slope'' \<mapsto> slope]) curves]\<rparr>"

text \<open>
  Modelled from the spec: \<open>LearningCurveRegression\<close>, "constructed with data, features,
  training/validation samplers, learners, evaluation sinks; exposes \<open>run()\<close>"; the class
  is missing. A sampler draws a sample set from the data; a learner is "used by the
  workflow to fit and predict": it is fitted on the features of a training set and gives
  its error on those of the validation set. \<open>run()\<close> signals an overlap, or else hands
  one learning curve per learner to every evaluation sink.
\<close>

definition run ::
  "'d \<Rightarrow> ('s \<Rightarrow> 'x) \<Rightarrow> ('d \<Rightarrow> 's list) list \<Rightarrow> ('d \<Rightarrow> 's list) \<Rightarrow> ('x list \<Rightarrow> 'x list \<Rightarrow> real) list
     \<Rightarrow> plot list \<Rightarrow> run_signal + plot list"
where
  "run data features training validation learners evaluations =
    (let v = validation data;
         ts = map (\<lambda>sampler. sampler data) training
     in case first_overlap v ts 0 of
          Some i \<Rightarrow> Inl (Overlap i)
        | None \<Rightarrow>
            let curves = map (\<lambda>learner.
                  map (\<lambda>t. (length t, learner (map features t) (map features v))) ts) learners
            in Inr (map (evaluate curves) evaluations))"

text \<open>
  Modelled from the spec: a learner, "used by the workflow to fit and predict"; the
  learner classes are missing. Fitting on the features of a training set gives a model,
  and the model predicts for the features of the validation set.
\<close>

record ('x, 'm, 'p) learner =
  fit :: "'x list \<Rightarrow> 'm"
  predict :: "'m \<Rightarrow> 'x list \<Rightarrow> 'p"


subsection \<open>Datasets\<close>

text \<open>
  Modelled from the spec: the dataset classes (\<open>datasets/...\<close>), which are missing. The
  specification: they are "constructed with filter/label/sample-extraction keyword
  functions; expose \<open>num_samples\<close>, \<open>samples()\<close>, \<open>labels()\<close>". A keyword function that
  is not given has the default of the class. The filter selects entries of the raw data;
  the sample and the label of an entry are extracted by the other two.
\<close>

record ('e, 's, 'l) dataset =
  entries :: "'e list"
  sample_of :: "'e \<Rightarrow> 's"
  label_of :: "'e \<Rightarrow> 'l"

text \<open>
  Modelled from the spec: the construction of a dataset from the raw data, the defaults
  of its class and the keyword functions that are given; missing with the classes.
\<close>

definition new_dataset ::
  "'e list \<Rightarrow> ('e \<Rightarrow> 's) \<Rightarrow> ('e \<Rightarrow> 'l)
     \<Rightarrow> ('e \<Rightarrow> bool) option \<Rightarrow> ('e \<Rightarrow> 'l) option \<Rightarrow> ('e \<Rightarrow> 's) option \<Rightarrow> ('e, 's, 'l) dataset"
where
  "new_dataset raw default_samplef default_labelf filterf labelf samplef =
    \<lparr>entries = (case filterf of None \<Rightarrow> raw | Some keep \<Rightarrow> filter keep raw),
     sample_of = (case samplef of None \<Rightarrow> default_samplef | Some g \<Rightarrow> g),
     label_of = (case labelf of None \<Rightarrow> default_labelf | Some g \<Rightarrow> g)\<rparr>"

text \<open>Modelled from the spec: the attribute \<open>num_samples\<close> of a dataset.\<close>

definition num_samples :: "('e, 's, 'l) dataset \<Rightarrow> int" where
  "num_samples ds = int (length (entries ds))"

text \<open>
  Modelled from the spec: the argument of the method \<open>samples()\<close> of a dataset. The
  notebooks call the method without an argument and as \<open>samples('all')\<close>; what the
  argument selects is not specified, and \<open>'all'\<close> is the only one passed: with or
  without it the samples of all entries are returned.
\<close>

datatype selection = Select_all

text \<open>Modelled from the spec: \<open>samples()\<close>, with its optional argument.\<close>

definition samples :: "('e, 's, 'l) dataset \<Rightarrow> selection option \<Rightarrow> 's list" where
  "samples ds which = map (sample_of ds) (entries ds)"

text \<open>Modelled from the spec: the method \<open>labels()\<close> of a dataset.\<close>

definition labels :: "('e, 's, 'l) dataset \<Rightarrow> 'l list" where
  "labels ds = map (label_of ds) (entries ds)"

section \<open>Properties of the statistics helper\<close>

lemma length_filter_conj_le:
  "length [e \<leftarrow> xs. P e \<and> Q e] \<le> length [e \<leftarrow> xs. P e]"
  by (induction xs) auto

lemma length_filter_mono:
  "(\<And>e. e \<in> set xs \<Longrightarrow> P e \<Longrightarrow> Q e) \<Longrightarrow> length [e \<leftarrow> xs. P e] \<le> length [e \<leftarrow> xs. Q e]"
  by (induction xs) auto

text \<open>
  The count of entries with both kinds of information never exceeds the count of
  entries with temperature information.
\<close>

lemma stats_both_le_temperature:
  assumes "stats samples_of store cn bg1 ds = ([Compounds n, Share a ntp p wp, Share b ncr q wq, Share c ntc r wr], None)"
  shows "ntc \<le> ntp"
  using assms length_filter_conj_le [of "\<lambda>e. temperature e \<noteq> None" _ "samples_of ds ''all''"]
  by (auto simp: stats_def Let_def split: if_splits)

text \<open>
  It stays below the count of entries with crystallinity information when every
  crystallinity object that equals the constant is the constant itself.
\<close>

lemma stats_both_le_crystallinity:
  assumes "stats samples_of store cn bg1 ds = ([Compounds n, Share a ntp p wp, Share b ncr q wq, Share c ntc r wr], None)"
    and "\<And>e. e \<in> set (samples_of ds ''all'') \<Longrightarrow> store (crystallinity e) = store cn \<Longrightarrow> crystallinity e = cn"
  shows "ntc \<le> ncr"
proof -
  have "length [e \<leftarrow> samples_of ds ''all''. temperature e \<noteq> None \<and> crystallinity e \<noteq> cn]
      \<le> length [e \<leftarrow> samples_of ds ''all''. store (crystallinity e) \<noteq> store cn]"
    by (rule length_filter_mono) (use assms(2) in auto)
  with assms(1) show ?thesis
    by (auto simp: stats_def Let_def split: if_splits)
qed

text \<open>
  C9. For every dataset \<open>ds\<close>, \<open>stats\<close> counts the entries with temperature, with
  crystallinity and with both in \<open>ds\<close>, but the total \<open>n\<close> it prints, and with it the
  denominator of the three shares and the three "without" numbers, is the number of
  entries of the global \<open>bg1\<close>, whichever dataset was passed.
\<close>

theorem stats_total_from_bg1:
  fixes samples_of :: "'ds \<Rightarrow> string \<Rightarrow> 't entry list" and store :: "'v store"
  assumes "samples_of bg1 ''all'' \<noteq> []"
  defines "n \<equiv> int (length (samples_of bg1 ''all''))"
  shows "\<exists>ntp ncr ntc.
      stats samples_of store cn bg1 ds =
        ([Compounds n,
          Share ''temperature'' ntp (real_of_int ntp / real_of_int n) (n - ntp),
          Share ''crystallinity'' ncr (real_of_int ncr / real_of_int n) (n - ncr),
          Share ''both'' ntc (real_of_int ntc / real_of_int n) (n - ntc)], None)
      \<and> ntp = int (length [e \<leftarrow> samples_of ds ''all''. temperature e \<noteq> None])
      \<and> ncr = int (length [e \<leftarrow> samples_of ds ''all''. store (crystallinity e) \<noteq> store cn])
      \<and> ntc = int (length [e \<leftarrow> samples_of ds ''all''. temperature e \<noteq> None \<and> crystallinity e \<noteq> cn])
      \<and> hd (fst (stats samples_of store cn bg1 ds')) = Compounds n"
  using assms by (simp add: stats_def Let_def)

text \<open>
  An instance: \<open>bg1\<close> has one entry and the dataset passed has two, both with a
  temperature. The number printed first is 1, the share is 2/1 and "without" is -1.
\<close>

theorem stats_total_from_bg1_witness:
  "entries_of [\<lparr>temperature = Some (300::int), crystallinity = 1\<rparr>] ''all'' \<noteq> []
   \<and> stats entries_of (\<lambda>r. r) 0
        [\<lparr>temperature = Some (300::int), crystallinity = 1\<rparr>]
        [\<lparr>temperature = Some 300, crystallinity = 1\<rparr>, \<lparr>temperature = Some 77, crystallinity = 0\<rparr>]
     = ([Compounds 1, Share ''temperature'' 2 2 (-1), Share ''crystallinity'' 1 1 0,
         Share ''both'' 1 1 0], None)"
  using stats_total_from_bg1 [of entries_of "[\<lparr>temperature = Some (300::int), crystallinity = 1\<rparr>]"
      "\<lambda>r. r" 0
      "[\<lparr>temperature = Some 300, crystallinity = 1\<rparr>, \<lparr>temperature = Some 77, crystallinity = 0\<rparr>]"]
  by (simp add: entries_of_def)

text \<open>
  C10. The count of entries with both temperature and crystallinity information should
  be at most the count with temperature information and at most the count with
  crystallinity information. The code tests the crystallinity by identity for the
  former and by equality for the latter. On a dataset whose single entry has a
  temperature and a crystallinity object equal to \<open>CRYSTALLINITY_NONE\<close> but distinct
  from it (references 1 and 2 hold the same value), \<open>stats\<close> prints 0 entries with
  crystallinity information and 1 entry with both.
\<close>

theorem stats_both_exceeds_crystallinity:
  "stats entries_of (\<lambda>r. if r = 1 \<or> r = 2 then ''none'' else ''single'') 1
      [\<lparr>temperature = Some (300::int), crystallinity = 2\<rparr>]
      [\<lparr>temperature = Some (300::int), crystallinity = 2\<rparr>]
   = ([Compounds 1, Share ''temperature'' 1 1 0, Share ''crystallinity'' 0 0 1,
       Share ''both'' 1 1 0], None)"
  by (simp add: stats_def entries_of_def)

section \<open>Properties of the rounding\<close>

lemma py_round_cases:
  "(py_round t = \<lfloor>t\<rfloor> \<and> t - real_of_int \<lfloor>t\<rfloor> \<le> 1 / 2)
   \<or> (py_round t = \<lfloor>t\<rfloor> + 1 \<and> 1 / 2 \<le> t - real_of_int \<lfloor>t\<rfloor>)"
proof -
  define d where "d = t - real_of_int \<lfloor>t\<rfloor>"
  show ?thesis
    unfolding py_round_def Let_def d_def [symmetric]
    by (cases "d < 1 / 2"; cases "1 / 2 < d"; cases "even \<lfloor>t\<rfloor>"; simp)
qed

lemma py_round_nearest: "\<bar>real_of_int (py_round t) - t\<bar> \<le> \<bar>real_of_int k - t\<bar>"
proof -
  define f where "f = \<lfloor>t\<rfloor>"
  have f: "real_of_int f \<le> t" "t < real_of_int f + 1" unfolding f_def by linarith+
  have "k \<le> f \<or> f + 1 \<le> k" by linarith
  then have k: "real_of_int k \<le> real_of_int f \<or> real_of_int f + 1 \<le> real_of_int k"
    by (metis of_int_le_iff of_int_add of_int_1)
  show ?thesis
  proof (rule disjE [OF py_round_cases [of t]])
    assume "py_round t = \<lfloor>t\<rfloor> \<and> t - real_of_int \<lfloor>t\<rfloor> \<le> 1 / 2"
    then have "real_of_int (py_round t) = real_of_int f" "t - real_of_int f \<le> 1 / 2"
      by (simp_all add: f_def)
    with f k show ?thesis by linarith
  next
    assume "py_round t = \<lfloor>t\<rfloor> + 1 \<and> 1 / 2 \<le> t - real_of_int \<lfloor>t\<rfloor>"
    then have "real_of_int (py_round t) = real_of_int f + 1" "1 / 2 \<le> t - real_of_int f"
      by (simp_all add: f_def)
    with f k show ?thesis by linarith
  qed
qed

lemma py_round_half: "\<bar>real_of_int (py_round t) - t\<bar> \<le> 1 / 2"
proof -
  define f where "f = \<lfloor>t\<rfloor>"
  have f: "real_of_int f \<le> t" "t < real_of_int f + 1" unfolding f_def by linarith+
  show ?thesis
  proof (rule disjE [OF py_round_cases [of t]])
    assume "py_round t = \<lfloor>t\<rfloor> \<and> t - real_of_int \<lfloor>t\<rfloor> \<le> 1 / 2"
    then have "real_of_int (py_round t) = real_of_int f" "t - real_of_int f \<le> 1 / 2"
      by (simp_all add: f_def)
    with f show ?thesis by linarith
  next
    assume "py_round t = \<lfloor>t\<rfloor> + 1 \<and> 1 / 2 \<le> t - real_of_int \<lfloor>t\<rfloor>"
    then have "real_of_int (py_round t) = real_of_int f + 1" "1 / 2 \<le> t - real_of_int f"
      by (simp_all add: f_def)
    with f show ?thesis by linarith
  qed
qed

lemma py_round_int [simp]: "py_round (real_of_int k) = k"
  by (simp add: py_round_def)

lemma py_round_ge: "real_of_int k \<le> t \<Longrightarrow> k \<le> py_round t"
proof -
  assume "real_of_int k \<le> t"
  then have "k \<le> \<lfloor>t\<rfloor>" by linarith
  then show ?thesis by (auto simp: py_round_def Let_def)
qed

lemma ulp_pos [simp]: "0 < ulp x"
  by (simp add: ulp_def)

lemma ulp_nonneg [simp]: "0 \<le> ulp x"
  by (rule less_imp_le) simp

lemma expo_le:
  assumes "0 \<le> k" "\<bar>x\<bar> < 2 ^ nat (k + 1)"
  shows "expo x \<le> k"
proof (cases "1 \<le> \<bar>x\<bar>")
  case True
  have "real_of_int \<lfloor>\<bar>x\<bar>\<rfloor> < 2 ^ nat (k + 1)" using assms(2) by linarith
  then have "\<lfloor>\<bar>x\<bar>\<rfloor> < 2 ^ nat (k + 1)" by (metis of_int_less_iff of_int_numeral of_int_power)
  then have "bitlen \<lfloor>\<bar>x\<bar>\<rfloor> \<le> k + 1" using assms(1) by (simp add: bitlen_le_iff_power)
  with True show ?thesis by (simp add: expo_def)
next
  case False
  have "0 \<le> bitlen (\<lceil>1 / \<bar>x\<bar>\<rceil> - 1)" by (rule bitlen_nonneg)
  with False assms(1) show ?thesis by (simp add: expo_def)
qed

lemma expo_ge:
  assumes "0 \<le> k" "2 ^ nat k \<le> \<bar>x\<bar>"
  shows "k \<le> expo x"
proof -
  have one: "1 \<le> \<bar>x\<bar>" using assms(2) one_le_power [of "2::real" "nat k"] by linarith
  have "real_of_int (2 ^ nat k) \<le> \<bar>x\<bar>" using assms(2) by simp
  then have "2 ^ nat k \<le> \<lfloor>\<bar>x\<bar>\<rfloor>" by (simp only: le_floor_iff)
  then have "k + 1 \<le> bitlen \<lfloor>\<bar>x\<bar>\<rfloor>" using assms(1)
    by (simp add: bitlen_ge_iff_power nat_add_distrib)
  with one show ?thesis by (simp add: expo_def)
qed

lemma expo_lower:
  assumes "1 \<le> \<bar>x\<bar>"
  shows "2 powi (expo x) \<le> \<bar>x\<bar>" "0 \<le> expo x"
proof -
  have pos: "0 < \<lfloor>\<bar>x\<bar>\<rfloor>" using assms by linarith
  from bitlen_bounds [OF pos] have "2 ^ nat (bitlen \<lfloor>\<bar>x\<bar>\<rfloor> - 1) \<le> \<lfloor>\<bar>x\<bar>\<rfloor>" by simp
  then have "real_of_int (2 ^ nat (bitlen \<lfloor>\<bar>x\<bar>\<rfloor> - 1)) \<le> \<bar>x\<bar>"
    by (simp only: le_floor_iff)
  then have b: "2 ^ nat (bitlen \<lfloor>\<bar>x\<bar>\<rfloor> - 1) \<le> \<bar>x\<bar>" by simp
  have "1 \<le> bitlen \<lfloor>\<bar>x\<bar>\<rfloor>" using pos by (simp add: bitlen_ge_iff_power)
  then show "0 \<le> expo x" using assms by (simp add: expo_def)
  then show "2 powi (expo x) \<le> \<bar>x\<bar>" using assms b by (simp add: expo_def power_int_def)
qed

text \<open>The exponent is the floor of the binary logarithm.\<close>

lemma expo_bounds:
  assumes "x \<noteq> 0"
  shows "2 powi (expo x) \<le> \<bar>x\<bar>" "\<bar>x\<bar> < 2 powi (expo x + 1)"
proof -
  define a where "a = \<bar>x\<bar>"
  have a: "0 < a" using assms by (simp add: a_def)
  have "2 powi (expo x) \<le> a \<and> a < 2 powi (expo x + 1)"
  proof (cases "1 \<le> a")
    case True
    then have pos: "0 < \<lfloor>a\<rfloor>" by linarith
    define b where "b = bitlen \<lfloor>a\<rfloor>"
    have e: "expo x = b - 1" using True by (simp add: expo_def a_def b_def)
    have b1: "1 \<le> b" using pos by (simp add: b_def bitlen_ge_iff_power)
    from bitlen_bounds [OF pos] have lo: "2 ^ nat (b - 1) \<le> \<lfloor>a\<rfloor>" and hi: "\<lfloor>a\<rfloor> < 2 ^ nat b"
      by (simp_all add: b_def)
    from lo have "real_of_int (2 ^ nat (b - 1)) \<le> a" by (simp only: le_floor_iff)
    then have l: "2 powi (b - 1) \<le> a" using b1 by (simp add: power_int_def)
    from hi have "\<lfloor>a\<rfloor> + 1 \<le> 2 ^ nat b" by simp
    then have "real_of_int (\<lfloor>a\<rfloor> + 1) \<le> real_of_int (2 ^ nat b)" by (simp only: of_int_le_iff)
    then have "real_of_int \<lfloor>a\<rfloor> + 1 \<le> 2 ^ nat b" by simp
    moreover have "a < real_of_int \<lfloor>a\<rfloor> + 1" by linarith
    ultimately have "a < 2 ^ nat b" by linarith
    then have "a < 2 powi b" using b1 by (simp add: power_int_def)
    with l show ?thesis by (simp add: e)
  next
    case False
    define c where "c = \<lceil>1 / a\<rceil>"
    define b where "b = bitlen (c - 1)"
    have e: "expo x = - b" using False by (simp add: expo_def a_def b_def c_def)
    have y: "1 < 1 / a" using False a by simp
    then have pos: "0 < c - 1" unfolding c_def by linarith
    have b1: "1 \<le> b" using pos by (simp add: b_def bitlen_ge_iff_power)
    from bitlen_bounds [OF pos] have lo: "2 ^ nat (b - 1) \<le> c - 1" and hi: "c - 1 < 2 ^ nat b"
      by (simp_all add: b_def)
    from hi have "c \<le> 2 ^ nat b" by simp
    then have "real_of_int c \<le> real_of_int (2 ^ nat b)" by (simp only: of_int_le_iff)
    then have "real_of_int c \<le> 2 ^ nat b" by (simp only: of_int_power of_int_numeral)
    moreover have "1 / a \<le> real_of_int c" unfolding c_def by linarith
    ultimately have "1 / a \<le> 2 ^ nat b" by linarith
    then have "1 / 2 ^ nat b \<le> a" using a by (simp add: field_simps)
    then have l: "2 powi (- b) \<le> a" using b1 by (simp add: power_int_def field_simps)
    from lo have "real_of_int (2 ^ nat (b - 1)) \<le> real_of_int (c - 1)" by (simp only: of_int_le_iff)
    then have "2 ^ nat (b - 1) \<le> real_of_int c - 1" by simp
    moreover have "real_of_int c - 1 < 1 / a" unfolding c_def by linarith
    ultimately have "2 ^ nat (b - 1) < 1 / a" by linarith
    then have "a < 1 / 2 ^ nat (b - 1)" using a by (simp add: field_simps)
    moreover have "(2::real) powi (- b + 1) = 1 / 2 ^ nat (b - 1)"
    proof -
      have "- b + 1 = - int (nat (b - 1))" using b1 by simp
      then have "(2::real) powi (- b + 1) = 2 powi (- int (nat (b - 1)))" by simp
      also have "\<dots> = 1 / 2 ^ nat (b - 1)" by (simp only: power_int_minus_divide power_int_of_nat)
      finally show ?thesis .
    qed
    ultimately have "a < 2 powi (- b + 1)" by simp
    with l show ?thesis by (simp add: e)
  qed
  then show "2 powi (expo x) \<le> \<bar>x\<bar>" "\<bar>x\<bar> < 2 powi (expo x + 1)" by (simp_all add: a_def)
qed

lemma scaled_diff: "0 < u \<Longrightarrow> \<bar>r * u - x\<bar> = \<bar>r - x / u\<bar> * u" for u r x :: real
proof -
  assume u: "0 < u"
  then have "(r - x / u) * u = r * u - x" by (simp add: field_simps)
  then have "\<bar>r * u - x\<bar> = \<bar>r - x / u\<bar> * \<bar>u\<bar>" by (metis abs_mult)
  with u show ?thesis by simp
qed

lemma rne_diff: "\<bar>rne x - x\<bar> = \<bar>real_of_int (py_round (x / ulp x)) - x / ulp x\<bar> * ulp x"
  unfolding rne_def by (rule scaled_diff) simp

lemma rne_nearest:
  assumes "d = real_of_int k * ulp x"
  shows "\<bar>rne x - x\<bar> \<le> \<bar>d - x\<bar>"
proof -
  have "\<bar>rne x - x\<bar> = \<bar>real_of_int (py_round (x / ulp x)) - x / ulp x\<bar> * ulp x"
    by (rule rne_diff)
  also have "\<dots> \<le> \<bar>real_of_int k - x / ulp x\<bar> * ulp x"
    by (intro mult_right_mono py_round_nearest) simp
  also have "\<dots> = \<bar>d - x\<bar>"
    unfolding assms by (rule scaled_diff [symmetric]) simp
  finally show ?thesis .
qed

lemma rne_error: "\<bar>rne x - x\<bar> \<le> ulp x / 2"
proof -
  have "\<bar>rne x - x\<bar> = \<bar>real_of_int (py_round (x / ulp x)) - x / ulp x\<bar> * ulp x"
    by (rule rne_diff)
  also have "\<dots> \<le> 1 / 2 * ulp x"
    by (intro mult_right_mono py_round_half) simp
  finally show ?thesis by simp
qed

lemma rne_exact: "x = real_of_int k * ulp x \<Longrightarrow> rne x = x"
  using rne_nearest [of x k x] by simp

lemma rne_abs_le: "\<bar>rne x\<bar> \<le> 2 * \<bar>x\<bar>"
  using rne_nearest [of 0 0 x] by simp


lemma py_round_le: "t \<le> real_of_int k \<Longrightarrow> py_round t \<le> k"
proof -
  assume a: "t \<le> real_of_int k"
  then have "\<lfloor>t\<rfloor> \<le> k" by linarith
  moreover have "\<lfloor>t\<rfloor> + 1 \<le> k" if "1 / 2 \<le> t - real_of_int \<lfloor>t\<rfloor>"
  proof -
    have "real_of_int \<lfloor>t\<rfloor> < real_of_int k" using that a by linarith
    then show ?thesis by linarith
  qed
  ultimately show ?thesis using py_round_cases [of t] by auto
qed

lemma ulp_le:
  assumes "- 1022 \<le> k" "0 \<le> k" "\<bar>x\<bar> < 2 ^ nat (k + 1)"
  shows "ulp x \<le> 2 powi (k - 52)"
proof -
  have "expo x \<le> k" using assms(2,3) by (rule expo_le)
  then have "max (expo x) (- 1022) - 52 \<le> k - 52" using assms(1) by simp
  then show ?thesis unfolding ulp_def by (intro power_int_increasing) simp_all
qed

lemma ulp_multiple:
  assumes "0 \<le> k" "\<bar>x\<bar> < 2 ^ nat (k + 1)" "k - 52 + int p \<le> 0"
  shows "\<exists>m. real_of_int j / 2 ^ p = real_of_int m * ulp x"
proof -
  define q where "q = max (expo x) (- 1022) - 52"
  have "expo x \<le> k" using assms(1,2) by (rule expo_le)
  then have q: "q + int p \<le> 0" using assms(1,3) by (simp add: q_def)
  define m where "m = j * 2 ^ nat (- q - int p)"
  have u: "ulp x = 2 powi q" by (simp add: ulp_def q_def)
  have "real_of_int m * ulp x = real_of_int j * (2 powi (- q - int p) * 2 powi q)"
    using q by (simp add: m_def u power_int_def)
  also have "2 powi (- q - int p) * 2 powi q = (2::real) powi (- int p)"
    by (subst power_int_add [symmetric]) simp_all
  also have "real_of_int j * 2 powi (- int p) = real_of_int j / 2 ^ p"
    by (simp add: power_int_minus divide_inverse)
  finally show ?thesis by (intro exI [of _ m]) simp
qed

lemma rne_small:
  assumes "\<bar>x\<bar> < 4"
  shows "rnd x = Fin (rne x)" "\<bar>rne x - x\<bar> \<le> 1 / 2 ^ 52"
proof -
  have "\<bar>x\<bar> < 2 ^ nat (1 + 1)" using assms by simp
  then have "ulp x \<le> 2 powi (1 - 52)" by (intro ulp_le) simp_all
  then have "ulp x \<le> 1 / 2 ^ 51" by simp
  with rne_error [of x] show "\<bar>rne x - x\<bar> \<le> 1 / 2 ^ 52" by simp
  have "\<bar>rne x\<bar> < 8" using rne_abs_le [of x] assms by linarith
  also have "(8::real) \<le> 2 ^ 1024" by simp
  finally show "rnd x = Fin (rne x)" by (simp add: rnd_def Let_def)
qed

lemma rne_int:
  assumes "\<bar>n\<bar> < 2 ^ 53"
  shows "rne (real_of_int n) = real_of_int n"
proof -
  have "\<bar>real_of_int n\<bar> < 2 ^ nat (52 + 1)"
    using assms by (simp flip: of_int_abs add: of_int_less_numeral_power_cancel_iff)
  then have "\<exists>m. real_of_int n / 2 ^ 0 = real_of_int m * ulp (real_of_int n)"
    by (intro ulp_multiple [of 52]) simp_all
  then obtain m where "real_of_int n = real_of_int m * ulp (real_of_int n)" by auto
  then show ?thesis by (rule rne_exact)
qed

lemma rne_ge_pow:
  assumes "1 \<le> y"
  shows "2 powi (expo y) \<le> rne y"
proof -
  have ay: "1 \<le> \<bar>y\<bar>" "\<bar>y\<bar> = y" using assms by simp_all
  note e = expo_lower [OF ay(1)]
  have u: "ulp y = 2 powi (expo y - 52)" using e(2) by (simp add: ulp_def max_def)
  have "2 powi (expo y) = 2 ^ 52 * ulp y"
    unfolding u by (simp add: power_int_diff)
  with e(1) ay have "real_of_int (2 ^ 52) \<le> y / ulp y" by (simp add: pos_le_divide_eq)
  then have "2 ^ 52 \<le> py_round (y / ulp y)" by (rule py_round_ge)
  then have "real_of_int (2 ^ 52) \<le> real_of_int (py_round (y / ulp y))" by (simp only: of_int_le_iff)
  then have "real_of_int (2 ^ 52) * ulp y \<le> rne y"
    unfolding rne_def by (intro mult_right_mono) simp_all
  then show ?thesis using \<open>2 powi (expo y) = 2 ^ 52 * ulp y\<close> by simp
qed

lemma rne_ge_int:
  assumes "0 \<le> k" "k \<le> 2 ^ 53" "real_of_int k \<le> y"
  shows "real_of_int k \<le> rne y"
proof (cases "y < 2 ^ 53")
  case True
  then have "\<bar>y\<bar> < 2 ^ nat (52 + 1)" using assms by simp
  then have "\<exists>m. real_of_int k / 2 ^ 0 = real_of_int m * ulp y"
    by (intro ulp_multiple [of 52]) simp_all
  then obtain m where "real_of_int k = real_of_int m * ulp y" by auto
  from rne_nearest [OF this] assms(3) show ?thesis by linarith
next
  case False
  then have y: "2 ^ nat 53 \<le> \<bar>y\<bar>" "1 \<le> y" by simp_all
  have "53 \<le> expo y" by (rule expo_ge [OF _ y(1)]) simp
  then have "(2::real) powi 53 \<le> 2 powi (expo y)" by (intro power_int_increasing) simp_all
  also have "\<dots> \<le> rne y" by (rule rne_ge_pow [OF y(2)])
  finally have "2 ^ 53 \<le> rne y" by simp
  moreover have "real_of_int k \<le> 2 ^ 53" using assms(2)
    by (metis of_int_le_iff of_int_numeral of_int_power)
  ultimately show ?thesis by linarith
qed

lemma rne_le_dyadic:
  assumes "0 \<le> k" "\<bar>x\<bar> < 2 ^ nat (k + 1)" "k - 52 + int p \<le> 0" "x \<le> real_of_int j / 2 ^ p"
  shows "rne x \<le> real_of_int j / 2 ^ p"
proof -
  from ulp_multiple [OF assms(1-3)] obtain m where "real_of_int j / 2 ^ p = real_of_int m * ulp x"
    by blast
  from rne_nearest [OF this] assms(4) show ?thesis by linarith
qed

lemma rne_ge_dyadic:
  assumes "0 \<le> k" "\<bar>x\<bar> < 2 ^ nat (k + 1)" "k - 52 + int p \<le> 0" "real_of_int j / 2 ^ p \<le> x"
  shows "real_of_int j / 2 ^ p \<le> rne x"
proof -
  from ulp_multiple [OF assms(1-3)] obtain m where "real_of_int j / 2 ^ p = real_of_int m * ulp x"
    by blast
  from rne_nearest [OF this] assms(4) show ?thesis by linarith
qed

lemma validation_fraction_eq: "validation_fraction = 3602879701896397 / 2 ^ 54"
  by code_simp

lemma train_fraction_eq: "np_sub (Fin 1) (Fin validation_fraction) = Fin (3602879701896397 / 2 ^ 52)"
  by code_simp


lemma rne_in_range:
  assumes "\<bar>x\<bar> < 2 ^ 1024 - 2 ^ 970"
  shows "\<bar>rne x\<bar> < 2 ^ 1024"
proof (cases "\<bar>x\<bar> < 2 ^ 1023")
  case True
  with rne_abs_le [of x] show ?thesis by simp
next
  case False
  then have lo: "2 ^ nat 1023 \<le> \<bar>x\<bar>" by simp
  have hi: "\<bar>x\<bar> < 2 ^ nat (1023 + 1)" using assms by simp
  have "expo x \<le> 1023" by (rule expo_le [OF _ hi]) simp
  moreover have "1023 \<le> expo x" by (rule expo_ge [OF _ lo]) simp
  ultimately have "expo x = 1023" by simp
  then have u: "ulp x = 2 ^ 971" by (simp add: ulp_def)
  have "\<bar>rne x - x\<bar> \<le> \<bar>real_of_int (2 ^ 53 - 1) * ulp x - x\<bar>"
    "\<bar>rne x - x\<bar> \<le> \<bar>real_of_int (- (2 ^ 53 - 1)) * ulp x - x\<bar>"
    by (rule rne_nearest [OF refl])+
  with assms False show ?thesis unfolding u by simp
qed

lemma rnd_in_range: "\<bar>x\<bar> < 2 ^ 1024 - 2 ^ 970 \<Longrightarrow> rnd x = Fin (rne x)"
  using rne_in_range [of x] by (simp add: rnd_def Let_def)

lemma float_of_int_in_range:
  assumes "\<bar>n\<bar> < 2 ^ 1024 - 2 ^ 970"
  shows "float_of_int n = Inr (rne (real_of_int n))" "\<bar>rne (real_of_int n)\<bar> < 2 ^ 1024"
proof -
  have "real_of_int \<bar>n\<bar> < real_of_int (2 ^ 1024 - 2 ^ 970)" using assms by (simp only: of_int_less_iff)
  then have "\<bar>real_of_int n\<bar> < 2 ^ 1024 - 2 ^ 970" by simp
  then show r: "\<bar>rne (real_of_int n)\<bar> < 2 ^ 1024" by (rule rne_in_range)
  then show "float_of_int n = Inr (rne (real_of_int n))"
    by (simp add: float_of_int_def Let_def)
qed

lemma py_round_minus: "py_round (- t) = - py_round t"
proof (cases "t = real_of_int \<lfloor>t\<rfloor>")
  case True
  then have "py_round (- t) = py_round (real_of_int (- \<lfloor>t\<rfloor>))" by simp
  also have "\<dots> = - \<lfloor>t\<rfloor>" by (rule py_round_int)
  also have "\<lfloor>t\<rfloor> = py_round (real_of_int \<lfloor>t\<rfloor>)" by simp
  finally show ?thesis using True by simp
next
  case False
  define f where "f = \<lfloor>t\<rfloor>"
  have f: "real_of_int f < t" "t < real_of_int f + 1"
    using False unfolding f_def by linarith+
  have "\<lfloor>- t\<rfloor> = - f - 1" by (rule floor_unique) (use f in simp_all)
  then have m: "py_round (- t) =
      (if 1 / 2 < t - real_of_int f then - f - 1
       else if t - real_of_int f < 1 / 2 then - f
       else if odd f then - f - 1 else - f)"
    by (simp add: py_round_def Let_def)
  have p: "py_round t =
      (if t - real_of_int f < 1 / 2 then f
       else if 1 / 2 < t - real_of_int f then f + 1
       else if even f then f else f + 1)"
    by (simp add: py_round_def Let_def f_def)
  show ?thesis unfolding m p by auto
qed

lemma py_round_up_odd:
  assumes "real_of_int k + 1 / 2 \<le> t" "odd k"
  shows "k + 1 \<le> py_round t"
proof -
  have k: "k \<le> \<lfloor>t\<rfloor>" using assms(1) by linarith
  show ?thesis
  proof (cases "k = \<lfloor>t\<rfloor>")
    case True
    with assms show ?thesis by (auto simp: py_round_def Let_def)
  next
    case False
    with k have "k + 1 \<le> \<lfloor>t\<rfloor>" by simp
    with py_round_cases [of t] show ?thesis by auto
  qed
qed

lemma rne_minus: "rne (- x) = - rne x"
  by (simp add: rne_def ulp_def expo_def py_round_minus)

lemma rne_overflow_pos:
  assumes "2 ^ 1024 - 2 ^ 970 \<le> x"
  shows "2 ^ 1024 \<le> rne x"
proof (cases "x < 2 ^ 1024")
  case True
  have lo: "2 ^ nat 1023 \<le> \<bar>x\<bar>" using assms by simp
  have hi: "\<bar>x\<bar> < 2 ^ nat (1023 + 1)" using True assms by simp
  have "expo x \<le> 1023" by (rule expo_le [OF _ hi]) simp
  moreover have "1023 \<le> expo x" by (rule expo_ge [OF _ lo]) simp
  ultimately have "expo x = 1023" by simp
  then have u: "ulp x = 2 ^ 971" by (simp add: ulp_def)
  have "real_of_int (2 ^ 53 - 1) + 1 / 2 \<le> x / 2 ^ 971" using assms by simp
  then have "2 ^ 53 - 1 + 1 \<le> py_round (x / 2 ^ 971)" by (rule py_round_up_odd) simp
  then have "real_of_int (2 ^ 53) \<le> real_of_int (py_round (x / 2 ^ 971))"
    by (simp only: of_int_le_iff)
  then have "real_of_int (2 ^ 53) * 2 ^ 971 \<le> real_of_int (py_round (x / 2 ^ 971)) * 2 ^ 971"
    by (intro mult_right_mono) simp_all
  then show ?thesis by (simp add: rne_def u)
next
  case False
  then have x: "2 ^ nat 1024 \<le> \<bar>x\<bar>" "1 \<le> x" by simp_all
  have "1024 \<le> expo x" by (rule expo_ge [OF _ x(1)]) simp
  then have "(2::real) powi 1024 \<le> 2 powi (expo x)" by (intro power_int_increasing) simp_all
  also have "\<dots> \<le> rne x" by (rule rne_ge_pow [OF x(2)])
  finally show ?thesis by simp
qed

lemma rne_overflow:
  assumes "2 ^ 1024 - 2 ^ 970 \<le> \<bar>x\<bar>"
  shows "2 ^ 1024 \<le> \<bar>rne x\<bar>"
proof (cases "0 \<le> x")
  case True
  with assms rne_overflow_pos [of x] show ?thesis by simp
next
  case False
  with assms rne_overflow_pos [of "- x"] show ?thesis by (simp add: rne_minus)
qed

lemma float_of_int_overflow:
  assumes "2 ^ 1024 - 2 ^ 970 \<le> \<bar>n\<bar>"
  shows "float_of_int n = Inl OverflowError"
proof -
  have "real_of_int (2 ^ 1024 - 2 ^ 970) \<le> real_of_int \<bar>n\<bar>" using assms by (simp only: of_int_le_iff)
  then have "2 ^ 1024 - 2 ^ 970 \<le> \<bar>real_of_int n\<bar>" by simp
  then have "2 ^ 1024 \<le> \<bar>rne (real_of_int n)\<bar>" by (rule rne_overflow)
  then show ?thesis by (simp add: float_of_int_def Let_def)
qed

section \<open>Properties of the split sizes\<close>

lemma linspace6:
  "linspace start stop 6 =
    (let delta = np_sub stop start; step = np_div delta (Fin 5)
     in (if step = Fin 0
         then map (\<lambda>i. np_add (np_mul (np_div (Fin i) (Fin 5)) delta) start) [0, 1, 2, 3, 4]
         else map (\<lambda>i. np_add (np_mul (Fin i) step) start) [0, 1, 2, 3, 4]) @ [stop])"
  by (simp add: linspace_def Let_def upt_rec)

lemma length_logspace: "length (logspace fp start stop num) = num"
  by (cases "num = 0") (auto simp: logspace_def linspace_def Let_def)

lemma log10_500_bounds: "2 \<le> log 10 (500::real)" "log 10 (500::real) \<le> 27 / 10"
proof -
  have "log 10 (10 powr 2) \<le> log 10 (500::real)" by (subst log_le_cancel_iff) simp_all
  then show "2 \<le> log 10 (500::real)" by (simp only: log_powr_cancel)
  have "log 10 (10 powr 3) \<le> log 10 (2 ^ 10 :: real)" by (subst log_le_cancel_iff) simp_all
  also have "log 10 (2 ^ 10 :: real) = real 10 * log 10 2" by (rule log_nat_power) simp
  finally have two: "3 / 10 \<le> log 10 (2::real)" by (simp only: log_powr_cancel)
  have "log 10 (1000 / 2 :: real) = log 10 1000 - log 10 2" by (rule log_divide_pos) simp_all
  moreover have "log 10 (10 powr 3) = (3::real)" by (rule log_powr_cancel) simp_all
  ultimately have "log 10 (500::real) = 3 - log 10 2" by simp
  then show "log 10 (500::real) \<le> 27 / 10" using two by simp
qed

lemma ten_powr_small: "10 powr (1 / 500000) \<le> (1 + 9 / 500000 :: real)"
proof -
  define b :: real where "b = 1 + 9 / 500000"
  have pos: "0 < b" by (simp add: b_def)
  have "1 + real 500000 * (9 / 500000) \<le> (1 + 9 / 500000 :: real) ^ 500000"
    by (rule Bernoulli_inequality) simp
  then have "10 \<le> b ^ 500000" unfolding b_def by simp
  then have "10 powr (1 / 500000) \<le> (b ^ 500000) powr (1 / 500000)"
    by (intro powr_mono2) simp_all
  also have "b ^ 500000 = b powr (real 500000)"
    using pos by (rule powr_realpow [symmetric])
  also have "(b powr (real 500000)) powr (1 / 500000) = b powr (real 500000 * (1 / 500000))"
    by (rule powr_powr)
  also have "\<dots> = b" using pos by simp
  finally show ?thesis unfolding b_def .
qed


lemma cast_le_500:
  assumes "accurate fp" "- 1 \<le> y" "y \<le> log 10 500 + 2 / 10 ^ 6"
  shows "astype_int (np_power10 fp (Fin y)) \<le> 500"
proof -
  have y3: "y \<le> 3" using assms(3) log10_500_bounds(2) by simp
  with assms(1,2) obtain r where r: "pow10 fp y = Fin r" "\<bar>r - 10 powr y\<bar> \<le> 10 powr y / 10 ^ 6"
    unfolding accurate_def by blast
  have "10 powr y \<le> 10 powr (log 10 500 + 1 / 500000)"
    using assms(3) by (intro powr_mono) simp_all
  also have "\<dots> = 500 * 10 powr (1 / 500000)"
    by (simp add: powr_add)
  also have "\<dots> \<le> 500 * (1 + 9 / 500000)"
    by (intro mult_left_mono ten_powr_small) simp
  finally have p: "10 powr y \<le> 500 * (1 + 9 / 500000)" .
  have "r \<le> 10 powr y + 10 powr y / 10 ^ 6" using r(2) by linarith
  with p have "r < 501" by simp
  then have "\<lfloor>r\<rfloor> \<le> 500" "r < 0 \<longrightarrow> \<lceil>r\<rceil> \<le> 0" by linarith+
  then show ?thesis by (auto simp: r(1) Let_def int64_min_def)
qed

lemma numeral_powers: "(10::real) ^ 6 = 1000000" "(2::real) ^ 52 = 4503599627370496"
  by simp_all

lemma rnd_small:
  assumes "\<bar>x\<bar> < 4"
  obtains r where "rnd x = Fin r" "\<bar>r - x\<bar> \<le> 1 / 4503599627370496"
  using rne_small [OF assms] unfolding numeral_powers by blast

lemma interpolate_arith:
  fixes B :: real
  assumes i: "i = 0 \<or> i = 1 \<or> i = 2 \<or> i = 3 \<or> i = 4"
    and g: "\<bar>g - d / 5\<bar> \<le> 1 / 4503599627370496"
    and d: "\<bar>d - (t - s)\<bar> \<le> 1 / 4503599627370496"
    and s: "\<bar>s - 1\<bar> \<le> 1 / 1000000"
    and t: "- (1 / 1000000) \<le> t" "t \<le> B + 1 / 1000000"
    and B: "2 \<le> B" "B \<le> 3"
  shows "\<bar>i * g\<bar> < 4"
    and "\<bar>z - i * g\<bar> \<le> 1 / 4503599627370496 \<Longrightarrow>
           - (1 / 1000000) - 7 / 4503599627370496 \<le> z + s"
    and "\<bar>z - i * g\<bar> \<le> 1 / 4503599627370496 \<Longrightarrow>
           z + s \<le> B + 1 / 1000000 + 7 / 4503599627370496"
proof -
  note b = g [unfolded abs_le_iff] d [unfolded abs_le_iff] s [unfolded abs_le_iff]
  from i have "- 4 < i * g \<and> i * g < 4"
  proof (elim disjE)
    assume "i = 0" with b t B show ?thesis by simp
  next
    assume "i = 1" with b t B show ?thesis by simp
  next
    assume "i = 2" with b t B show ?thesis by simp
  next
    assume "i = 3" with b t B show ?thesis by simp
  next
    assume "i = 4" with b t B show ?thesis by simp
  qed
  then show "\<bar>i * g\<bar> < 4" by (simp add: abs_less_iff)
  assume "\<bar>z - i * g\<bar> \<le> 1 / 4503599627370496"
  note z = this [unfolded abs_le_iff]
  from i show "- (1 / 1000000) - 7 / 4503599627370496 \<le> z + s"
  proof (elim disjE)
    assume "i = 0" with z b t B show ?thesis by simp
  next
    assume "i = 1" with z b t B show ?thesis by simp
  next
    assume "i = 2" with z b t B show ?thesis by simp
  next
    assume "i = 3" with z b t B show ?thesis by simp
  next
    assume "i = 4" with z b t B show ?thesis by simp
  qed
  from i show "z + s \<le> B + 1 / 1000000 + 7 / 4503599627370496"
  proof (elim disjE)
    assume "i = 0" with z b t B show ?thesis by simp
  next
    assume "i = 1" with z b t B show ?thesis by simp
  next
    assume "i = 2" with z b t B show ?thesis by simp
  next
    assume "i = 3" with z b t B show ?thesis by simp
  next
    assume "i = 4" with z b t B show ?thesis by simp
  qed
qed

lemma interpolate:
  fixes B :: real
  assumes i: "i = 0 \<or> i = 1 \<or> i = 2 \<or> i = 3 \<or> i = 4"
    and s: "\<bar>s - 1\<bar> \<le> 1 / 1000000"
    and t: "- (1 / 1000000) \<le> t" "t \<le> B + 1 / 1000000"
    and B: "2 \<le> B" "B \<le> 3"
    and step: "np_div (np_sub (Fin t) (Fin s)) (Fin 5) = step"
  shows "\<exists>y. np_add (np_mul (Fin i) step) (Fin s) = Fin y \<and> - 1 \<le> y \<and> y \<le> B + 2 / 1000000"
proof -
  have "\<bar>t - s\<bar> < 4" using s t B by linarith
  then obtain d where d: "rnd (t - s) = Fin d" "\<bar>d - (t - s)\<bar> \<le> 1 / 4503599627370496"
    by (rule rnd_small)
  have "\<bar>d / 5\<bar> < 4" using d(2) s t B by linarith
  then obtain g where g: "rnd (d / 5) = Fin g" "\<bar>g - d / 5\<bar> \<le> 1 / 4503599627370496"
    by (rule rnd_small)
  have st: "step = Fin g" using step by (simp add: np_sub_def d(1) g(1))
  note a = interpolate_arith [OF i g(2) d(2) s t B]
  from a(1) obtain z where z: "rnd (i * g) = Fin z" "\<bar>z - i * g\<bar> \<le> 1 / 4503599627370496"
    by (rule rnd_small)
  note zl = a(2) [OF z(2)] and zu = a(3) [OF z(2)]
  have "\<bar>z + s\<bar> < 4" using zl zu B by linarith
  then obtain y where y: "rnd (z + s) = Fin y" "\<bar>y - (z + s)\<bar> \<le> 1 / 4503599627370496"
    by (rule rnd_small)
  have "- 1 \<le> y" "y \<le> B + 2 / 1000000" using zl zu y(2) by linarith+
  then show ?thesis by (simp add: st z(1) y(1))
qed


lemma interpolate_zero_step:
  fixes B :: real
  assumes i: "i = 0 \<or> i = 1 \<or> i = 2 \<or> i = 3 \<or> i = 4"
    and s: "\<bar>s - 1\<bar> \<le> 1 / 1000000"
    and t: "- (1 / 1000000) \<le> t" "t \<le> B + 1 / 1000000"
    and B: "2 \<le> B" "B \<le> 3"
    and step: "np_div (np_sub (Fin t) (Fin s)) (Fin 5) = Fin 0"
  shows "\<exists>y. np_add (np_mul (np_div (Fin i) (Fin 5)) (np_sub (Fin t) (Fin s))) (Fin s) = Fin y
           \<and> - 1 \<le> y \<and> y \<le> B + 2 / 1000000"
proof -
  have "\<bar>t - s\<bar> < 4" using s t B by linarith
  then obtain d where d: "rnd (t - s) = Fin d" "\<bar>d - (t - s)\<bar> \<le> 1 / 4503599627370496"
    by (rule rnd_small)
  have "\<bar>d / 5\<bar> < 4" using d(2) s t B by linarith
  then obtain g where g: "rnd (d / 5) = Fin g" "\<bar>g - d / 5\<bar> \<le> 1 / 4503599627370496"
    by (rule rnd_small)
  have "g = 0" using step by (simp add: np_sub_def d(1) g(1))
  with g(2) have d5: "\<bar>d\<bar> \<le> 5 / 4503599627370496" by simp
  have "\<bar>i / 5\<bar> < 4" using i by (elim disjE) simp_all
  then obtain w where w: "rnd (i / 5) = Fin w" "\<bar>w - i / 5\<bar> \<le> 1 / 4503599627370496"
    by (rule rnd_small)
  have "\<bar>w\<bar> \<le> 1" using i w(2) by (elim disjE; simp; linarith)
  then have "\<bar>w\<bar> * \<bar>d\<bar> \<le> 1 * \<bar>d\<bar>" by (intro mult_right_mono) simp_all
  then have wd: "\<bar>w * d\<bar> \<le> 5 / 4503599627370496" using d5 by (simp add: abs_mult)
  then have "\<bar>w * d\<bar> < 4" by simp
  then obtain z where z: "rnd (w * d) = Fin z" "\<bar>z - w * d\<bar> \<le> 1 / 4503599627370496"
    by (rule rnd_small)
  have zb: "\<bar>z\<bar> \<le> 6 / 4503599627370496" using wd z(2) by linarith
  have "\<bar>z + s\<bar> < 4" using zb s by linarith
  then obtain y where y: "rnd (z + s) = Fin y" "\<bar>y - (z + s)\<bar> \<le> 1 / 4503599627370496"
    by (rule rnd_small)
  have "- 1 \<le> y" "y \<le> B + 2 / 1000000" using zb y(2) s B by linarith+
  then show ?thesis by (simp add: np_sub_def d(1) w(1) z(1) y(1))
qed

lemma logspace_finite_bound:
  assumes "accurate fp" "1 \<le> k" "k \<le> 500"
  shows "list_all (\<lambda>n. n \<le> 500)
           (map astype_int (logspace fp (Fin (log10 fp 10)) (Fin (log10 fp k)) 6))"
proof -
  define s where "s = log10 fp 10"
  define t where "t = log10 fp k"
  define B :: real where "B = log 10 500"
  have a: "\<bar>log10 fp x - log 10 x\<bar> \<le> 1 / 1000000" if "1 \<le> x" "x \<le> 500" for x
    using assms(1) that unfolding accurate_def numeral_powers by blast
  have s: "\<bar>s - 1\<bar> \<le> 1 / 1000000" using a [of 10] by (simp add: s_def)
  have "0 \<le> log 10 k" "log 10 k \<le> B" using assms(2,3) by (simp_all add: B_def)
  with a [OF assms(2,3)] have t: "- (1 / 1000000) \<le> t" "t \<le> B + 1 / 1000000"
    unfolding t_def by linarith+
  have B: "2 \<le> B" "B \<le> 3" using log10_500_bounds by (simp_all add: B_def)
  have c: "astype_int (np_power10 fp x) \<le> 500"
    if "\<exists>y. x = Fin y \<and> - 1 \<le> y \<and> y \<le> B + 2 / 1000000" for x
    using that cast_le_500 [OF assms(1)] unfolding B_def numeral_powers by auto
  note i = interpolate [OF _ s t B refl] and z = interpolate_zero_step [OF _ s t B]
  have e: "astype_int (np_power10 fp (Fin t)) \<le> 500"
    by (rule c) (use t B in auto)
  show ?thesis
  proof (cases "np_div (np_sub (Fin t) (Fin s)) (Fin 5) = Fin 0")
    case True
    note z = z [OF _ True]
    have "astype_int (np_power10 fp
        (np_add (np_mul (np_div (Fin j) (Fin 5)) (np_sub (Fin t) (Fin s))) (Fin s))) \<le> 500"
      if "j = 0 \<or> j = 1 \<or> j = 2 \<or> j = 3 \<or> j = 4" for j
      by (rule c) (rule z [OF that])
    from this [of 0] this [of 1] this [of 2] this [of 3] this [of 4] e True show ?thesis
      unfolding s_def [symmetric] t_def [symmetric]
      by (simp add: logspace_def linspace6 Let_def)
  next
    case False
    have "astype_int (np_power10 fp
        (np_add (np_mul (Fin j) (np_div (np_sub (Fin t) (Fin s)) (Fin 5))) (Fin s))) \<le> 500"
      if "j = 0 \<or> j = 1 \<or> j = 2 \<or> j = 3 \<or> j = 4" for j
      by (rule c) (rule i [OF that])
    from this [of 0] this [of 1] this [of 2] this [of 3] this [of 4] e False show ?thesis
      unfolding s_def [symmetric] t_def [symmetric]
      by (simp add: logspace_def linspace6 Let_def)
  qed
qed

lemma logspace_special:
  "map astype_int (logspace fp (Fin s) NegInf 6) = [int64_min, 0, 0, 0, 0, 0]"
  "map astype_int (logspace fp (Fin s) NaN 6)
     = [int64_min, int64_min, int64_min, int64_min, int64_min, int64_min]"
  by (simp_all add: logspace_def linspace6 np_sub_def signed_inf_def)


lemma rnd_product:
  fixes c x :: real
  assumes "\<bar>x\<bar> < 2 ^ 1024" "0 \<le> c" "c \<le> 13 / 16"
  shows "rnd (c * x) = Fin (rne (c * x))"
proof -
  have "c * \<bar>x\<bar> \<le> 13 / 16 * \<bar>x\<bar>" using assms(3) by (intro mult_right_mono) simp_all
  then have "\<bar>c * x\<bar> \<le> 13 / 16 * \<bar>x\<bar>" using assms(2) by (simp add: abs_mult)
  with assms(1) have "\<bar>c * x\<bar> < 2 ^ 1024 - 2 ^ 970" by simp
  then show ?thesis by (rule rnd_in_range)
qed

lemma py_int_floor: "py_int (np_floor (Fin x)) = Inr \<lfloor>x\<rfloor>"
  by simp

lemma float_times_int_in_range:
  assumes "\<bar>n\<bar> < 2 ^ 1024 - 2 ^ 970" "0 \<le> c" "c \<le> 13 / 16"
  shows "float_times_int (Fin c) n = Inr (Fin (rne (c * rne (real_of_int n))))"
  using float_of_int_in_range [OF assms(1)] assms(2,3)
  by (simp add: float_times_int_def rnd_product)

lemma calc_split_sizes_in_range:
  fixes num_samples_of :: "'ds \<Rightarrow> int"
  defines "n \<equiv> (\<lambda>data. case data of An_int k \<Rightarrow> k | A_dataset d \<Rightarrow> num_samples_of d)"
  assumes "\<bar>n data\<bar> < 2 ^ 1024 - 2 ^ 970"
  shows "calc_split_sizes fp num_samples_of data =
    Inr (min \<lfloor>rne (validation_fraction * rne (real_of_int (n data)))\<rfloor> 500,
         map astype_int (logspace fp (Fin (log10 fp 10))
           (np_log10 fp (Fin (real_of_int
              (min \<lfloor>rne (3602879701896397 / 2 ^ 52 * rne (real_of_int (n data)))\<rfloor> 500)))) 6))"
proof -
  have k: "(case data of An_int k \<Rightarrow> k | A_dataset d \<Rightarrow> num_samples_of d) = n data"
    by (simp add: n_def)
  have v: "float_times_int (Fin validation_fraction) (n data)
      = Inr (Fin (rne (validation_fraction * rne (real_of_int (n data)))))"
    using assms(2) by (rule float_times_int_in_range) (simp_all add: validation_fraction_eq)
  have t: "float_times_int (np_sub (Fin 1) (Fin validation_fraction)) (n data)
      = Inr (Fin (rne (3602879701896397 / 2 ^ 52 * rne (real_of_int (n data)))))"
    unfolding train_fraction_eq using assms(2) by (rule float_times_int_in_range) simp_all
  have m: "py_min (np_floor (Fin y)) 500 = Fin (real_of_int (min \<lfloor>y\<rfloor> 500))" for y
    by (simp add: min_def)
  have l: "np_log10 fp (Fin (real_of_int num_train_min)) = Fin (log10 fp 10)"
    by (simp add: num_train_min_def)
  show ?thesis
    unfolding calc_split_sizes_def k
    by (simp only: Let_def v t sum.case py_int_floor m l max_size_def num_training_sets_def)
qed


lemma validation_small:
  assumes "0 \<le> n" "n < 2500"
  shows "\<lfloor>rne (validation_fraction * rne (real_of_int n))\<rfloor> = n div 5"
proof -
  define m where "m = n div 5"
  define r where "r = n mod 5"
  define p where "p = validation_fraction * real_of_int n"
  have d: "n = 5 * m + r" "0 \<le> r" "r \<le> 4" "0 \<le> m" using assms(1) by (simp_all add: m_def r_def)
  from d(1) have "real_of_int n = real_of_int (5 * m + r)" by (rule arg_cong)
  with d(2-4) have nr: "real_of_int n = 5 * real_of_int m + real_of_int r"
    "0 \<le> real_of_int r" "real_of_int r \<le> 4" "0 \<le> real_of_int m"
    by simp_all
  have "real_of_int n < 2500" using assms(2) by simp
  with nr have lo: "real_of_int m \<le> p" and hi: "p \<le> real_of_int m + 7 / 8"
    unfolding p_def validation_fraction_eq by simp_all
  have "real_of_int m < 500" using nr \<open>real_of_int n < 2500\<close> by linarith
  with lo hi nr(4) have ap: "\<bar>p\<bar> < 2 ^ nat (48 + 1)" by simp
  have "real_of_int m / 2 ^ 0 \<le> rne p"
    by (rule rne_ge_dyadic [OF _ ap]) (use lo in simp_all)
  moreover have "rne p \<le> real_of_int (8 * m + 7) / 2 ^ 3"
    by (rule rne_le_dyadic [OF _ ap]) (use hi in simp_all)
  ultimately have "real_of_int m \<le> rne p" "rne p < real_of_int m + 1" by simp_all
  then have "\<lfloor>rne p\<rfloor> = m" by (rule floor_unique)
  moreover have "rne (real_of_int n) = real_of_int n"
    by (rule rne_int) (use assms in simp)
  ultimately show ?thesis by (simp add: p_def m_def)
qed

lemma validation_large:
  assumes "2500 \<le> n"
  shows "500 \<le> \<lfloor>rne (validation_fraction * rne (real_of_int n))\<rfloor>"
proof -
  have "real_of_int 2500 \<le> real_of_int n" using assms by (simp only: of_int_le_iff)
  then have "real_of_int 2500 \<le> rne (real_of_int n)" by (intro rne_ge_int) simp_all
  then have "real_of_int 500 \<le> validation_fraction * rne (real_of_int n)"
    unfolding validation_fraction_eq by simp
  then have "real_of_int 500 \<le> rne (validation_fraction * rne (real_of_int n))"
    by (intro rne_ge_int) simp_all
  then show ?thesis by (simp add: le_floor_iff)
qed

lemma validation_size:
  assumes "0 \<le> n"
  shows "min \<lfloor>rne (validation_fraction * rne (real_of_int n))\<rfloor> 500 = min (n div 5) 500"
proof (cases "n < 2500")
  case True
  with assms show ?thesis by (simp add: validation_small)
next
  case False
  then have "2500 \<le> n" by simp
  from validation_large [OF this] this show ?thesis by simp
qed

lemma training_sizes:
  assumes "accurate fp" "k \<le> 500"
  shows "list_all (\<lambda>n. n \<le> 500)
           (map astype_int (logspace fp (Fin (log10 fp 10)) (np_log10 fp (Fin (real_of_int k))) 6))"
proof -
  consider "1 \<le> k" | "k = 0" | "k < 0" by linarith
  then show ?thesis
  proof cases
    case 1
    then have "np_log10 fp (Fin (real_of_int k)) = Fin (log10 fp (real_of_int k))" by simp
    moreover have "1 \<le> real_of_int k" "real_of_int k \<le> 500" using 1 assms(2) by simp_all
    ultimately show ?thesis using logspace_finite_bound [OF assms(1)] by simp
  next
    case 2
    then show ?thesis by (simp add: logspace_special int64_min_def)
  next
    case 3
    then show ?thesis by (simp add: logspace_special int64_min_def)
  qed
qed

lemma calc_split_sizes_returns:
  fixes num_samples_of :: "'ds \<Rightarrow> int"
  assumes "\<bar>case data of An_int k \<Rightarrow> k | A_dataset d \<Rightarrow> num_samples_of d\<bar> < 2 ^ 1024 - 2 ^ 970"
  shows "\<exists>v ts. calc_split_sizes fp num_samples_of data = Inr (v, ts) \<and> length ts = 6"
  using calc_split_sizes_in_range [OF assms] by (simp add: length_logspace)

lemma calc_split_sizes_overflow:
  fixes num_samples_of :: "'ds \<Rightarrow> int"
  assumes "2 ^ 1024 - 2 ^ 970 \<le> \<bar>case data of An_int k \<Rightarrow> k | A_dataset d \<Rightarrow> num_samples_of d\<bar>"
  shows "calc_split_sizes fp num_samples_of data = Inl OverflowError"
  using float_of_int_overflow [OF assms]
  by (simp add: calc_split_sizes_def float_times_int_def)

text \<open>
  The sizes for the 650 samples that the panel draws from each synthetic dataset: the
  largest training size is 500, and the last element of the array is the cast of the power
  of its logarithm. That is 499 on a platform whose library returns
  499.99999999999994 for the power, and 500 on one that returns 500.
\<close>

lemma floor_product_650:
  "\<lfloor>rne (validation_fraction * rne (real_of_int 650))\<rfloor> = 130"
  "\<lfloor>rne (3602879701896397 / 2 ^ 52 * rne (real_of_int 650))\<rfloor> = 520"
  by code_simp+

lemma calc_split_sizes_650:
  "calc_split_sizes fp num_samples_of (An_int 650) =
     Inr (130, map astype_int (logspace fp (Fin (log10 fp 10)) (Fin (log10 fp 500)) 6))"
proof -
  have "\<bar>case An_int 650 of An_int k \<Rightarrow> k | A_dataset d \<Rightarrow> num_samples_of d\<bar> < 2 ^ 1024 - 2 ^ 970"
    by simp
  from calc_split_sizes_in_range [OF this] show ?thesis
    by (simp only: int_or_dataset.case floor_product_650) simp
qed

lemma last_logspace:
  "last (map astype_int (logspace fp start stop 6)) = astype_int (np_power10 fp stop)"
  by (simp add: logspace_def linspace6 Let_def)

lemma floor_product_negative:
  "\<lfloor>rne (validation_fraction * rne (real_of_int (- 100000000000000003)))\<rfloor> = - 20000000000000000"
  by code_simp

text \<open>
  C8, as stated: for every argument the validation size is \<open>min (floor (0.2 * n)) 500\<close>
  and at most a fifth of \<open>n\<close>, and six training sizes are returned. The product
  \<open>validation_fraction * num_samples\<close> is a float: for \<open>n = -100000000000000003\<close> the
  validation size is \<open>-20000000000000000\<close>, which is neither the floor of a fifth of
  \<open>n\<close> nor at most a fifth of \<open>n\<close>; for \<open>n = 10 ^ 400\<close> the product raises
  \<open>OverflowError\<close>.
\<close>

theorem calc_split_sizes_rounds_and_overflows:
  "(\<forall>fp. \<exists>ts. calc_split_sizes fp (\<lambda>d::unit. 0) (An_int (- 100000000000000003))
                = Inr (- 20000000000000000, ts))
   \<and> - 20000000000000000 \<noteq> min \<lfloor>0.2 * real_of_int (- 100000000000000003)\<rfloor> 500
   \<and> \<not> 5 * (- 20000000000000000) \<le> (- 100000000000000003 :: int)
   \<and> (\<forall>fp. calc_split_sizes fp (\<lambda>d::unit. 0) (An_int (10 ^ 400)) = Inl OverflowError)"
proof -
  have "\<bar>case An_int (- 100000000000000003) of An_int k \<Rightarrow> k | A_dataset (d::unit) \<Rightarrow> 0\<bar>
      < 2 ^ 1024 - 2 ^ 970"
    by simp
  from calc_split_sizes_in_range [OF this]
  have "\<exists>ts. calc_split_sizes fp (\<lambda>d::unit. 0) (An_int (- 100000000000000003))
                = Inr (- 20000000000000000, ts)" for fp
    by (simp only: int_or_dataset.case floor_product_negative) simp
  moreover have "2 ^ 1024 - 2 ^ 970 \<le> \<bar>case An_int (10 ^ 400) of An_int k \<Rightarrow> k | A_dataset (d::unit) \<Rightarrow> 0\<bar>"
    by simp
  from calc_split_sizes_overflow [OF this]
  have "calc_split_sizes fp (\<lambda>d::unit. 0) (An_int (10 ^ 400)) = Inl OverflowError" for fp .
  moreover have "\<lfloor>0.2 * real_of_int (- 100000000000000003)\<rfloor> = - 20000000000000001"
    by (simp add: floor_unique)
  ultimately show ?thesis by simp
qed

text \<open>
  C8, amended. For every argument, an integer or a dataset with \<open>n\<close> samples, that can be
  converted to a float (\<open>\<bar>n\<bar> < 2 ^ 1024 - 2 ^ 970\<close>), \<open>calc_split_sizes\<close> returns a
  validation size of at most 500 together with an array of exactly 6 integer training-set
  sizes, each of which is at most 500 (on a platform whose logarithm and power are
  accurate); when \<open>n\<close> is not negative, the validation size is equal to
  \<open>min (floor (0.2 * n)) 500\<close>, hence never exceeds one fifth of the samples. For every
  other argument the call raises \<open>OverflowError\<close>.
\<close>

theorem calc_split_sizes_bounds:
  fixes num_samples_of :: "'ds \<Rightarrow> int"
  defines "n \<equiv> (\<lambda>data. case data of An_int k \<Rightarrow> k | A_dataset d \<Rightarrow> num_samples_of d)"
  shows "(\<bar>n data\<bar> < 2 ^ 1024 - 2 ^ 970 \<longrightarrow>
           (\<exists>v ts. calc_split_sizes fp num_samples_of data = Inr (v, ts)
              \<and> v \<le> 500 \<and> length ts = 6
              \<and> (accurate fp \<longrightarrow> (\<forall>s \<in> set ts. s \<le> 500))
              \<and> (0 \<le> n data \<longrightarrow> v = min \<lfloor>0.2 * real_of_int (n data)\<rfloor> 500 \<and> 5 * v \<le> n data)))
       \<and> (2 ^ 1024 - 2 ^ 970 \<le> \<bar>n data\<bar> \<longrightarrow>
            calc_split_sizes fp num_samples_of data = Inl OverflowError)"
proof (intro conjI impI)
  assume r: "\<bar>n data\<bar> < 2 ^ 1024 - 2 ^ 970"
  define v where "v = min \<lfloor>rne (validation_fraction * rne (real_of_int (n data)))\<rfloor> 500"
  define k where "k = min \<lfloor>rne (3602879701896397 / 2 ^ 52 * rne (real_of_int (n data)))\<rfloor> 500"
  define ts where "ts = map astype_int (logspace fp (Fin (log10 fp 10))
           (np_log10 fp (Fin (real_of_int k))) 6)"
  have c: "calc_split_sizes fp num_samples_of data = Inr (v, ts)"
    using calc_split_sizes_in_range [of num_samples_of data fp] r
    by (simp add: n_def v_def ts_def k_def)
  have k: "k \<le> 500" by (simp add: k_def)
  have t: "\<forall>s \<in> set ts. s \<le> 500" if "accurate fp"
  proof -
    from that k have "list_all (\<lambda>n. n \<le> 500) ts" unfolding ts_def by (rule training_sizes)
    then show ?thesis by (simp add: list_all_iff)
  qed
  have l: "length ts = 6" by (simp add: ts_def length_logspace)
  have "v = min \<lfloor>0.2 * real_of_int (n data)\<rfloor> 500 \<and> 5 * v \<le> n data" if "0 \<le> n data"
  proof -
    have "\<lfloor>0.2 * real_of_int (n data)\<rfloor> = n data div 5" by linarith
    with validation_size [OF that] show ?thesis by (simp add: v_def)
  qed
  moreover have "v \<le> 500" by (simp add: v_def)
  ultimately show "\<exists>v ts. calc_split_sizes fp num_samples_of data = Inr (v, ts)
              \<and> v \<le> 500 \<and> length ts = 6
              \<and> (accurate fp \<longrightarrow> (\<forall>s \<in> set ts. s \<le> 500))
              \<and> (0 \<le> n data \<longrightarrow> v = min \<lfloor>0.2 * real_of_int (n data)\<rfloor> 500 \<and> 5 * v \<le> n data)"
    using c t l by blast
next
  assume "2 ^ 1024 - 2 ^ 970 \<le> \<bar>n data\<bar>"
  then show "calc_split_sizes fp num_samples_of data = Inl OverflowError"
    unfolding n_def by (rule calc_split_sizes_overflow)
qed

text \<open>
  An instance: 650 samples, on a platform whose logarithm is exact and whose power is a
  ten-millionth too small. The validation size is 130, and the last of the six training
  sizes is 499.
\<close>

theorem calc_split_sizes_bounds_witness:
  "\<exists>ts. calc_split_sizes
           \<lparr>log10 = log 10, pow10 = (\<lambda>y. Fin (10 powr y * (1 - 1 / 10 ^ 7)))\<rparr>
           (\<lambda>d::unit. 0) (An_int 650) = Inr (130, ts)
        \<and> length ts = 6 \<and> list_all (\<lambda>s. s \<le> 500) ts \<and> last ts = 499"
proof -
  let ?fp = "\<lparr>log10 = log 10, pow10 = (\<lambda>y. Fin (10 powr y * (1 - 1 / 10 ^ 7)))\<rparr>"
  have p: "\<bar>10 powr y * (1 - 1 / 10 ^ 7) - 10 powr y\<bar> \<le> 10 powr y / 10 ^ 6" for y :: real
  proof -
    have "0 \<le> 10 powr y" by simp
    then show ?thesis by (simp add: algebra_simps abs_if)
  qed
  have a: "accurate ?fp"
    unfolding accurate_def
  proof (intro conjI allI impI)
    fix x :: real
    show "\<bar>log10 ?fp x - log 10 x\<bar> \<le> 1 / 10 ^ 6" by simp
  next
    fix y :: real
    have "pow10 ?fp y = Fin (10 powr y * (1 - 1 / 10 ^ 7))" by simp
    with p [of y] show "\<exists>r. pow10 ?fp y = Fin r \<and> \<bar>r - 10 powr y\<bar> \<le> 10 powr y / 10 ^ 6"
      by blast
  qed
  have "\<bar>case An_int 650 of An_int k \<Rightarrow> k | A_dataset (d::unit) \<Rightarrow> 0\<bar> < 2 ^ 1024 - 2 ^ 970" by simp
  with a calc_split_sizes_bounds [of "\<lambda>d::unit. 0" "An_int 650" ?fp] obtain v ts where
    c: "calc_split_sizes ?fp (\<lambda>d::unit. 0) (An_int 650) = Inr (v, ts)" and
    b: "length ts = 6" "\<forall>s \<in> set ts. s \<le> 500" and
    v: "v = min \<lfloor>0.2 * real_of_int 650\<rfloor> 500"
    by auto
  have "\<lfloor>0.2 * real_of_int 650\<rfloor> = 130" by (simp add: floor_unique)
  with v have v': "v = 130" by simp
  from c have "ts = map astype_int (logspace ?fp (Fin (log10 ?fp 10)) (Fin (log10 ?fp 500)) 6)"
    by (simp add: calc_split_sizes_650)
  then have "last ts = astype_int (np_power10 ?fp (Fin (log10 ?fp 500)))"
    by (simp only: last_logspace)
  also have "\<dots> = astype_int (Fin (500 * (1 - 1 / 10 ^ 7)))" by simp
  also have "\<dots> = 499" by (simp add: floor_unique)
  finally have "last ts = 499" .
  with c b v' show ?thesis by (simp add: list_all_iff)
qed

section \<open>Properties of the specified library\<close>

lemma first_overlap_None:
  "first_overlap v ts k = None \<longleftrightarrow> (\<forall>t \<in> set ts. set t \<inter> set v = {})"
  by (induction ts arbitrary: k) (auto simp: list_ex_iff)

lemma first_overlap_Some:
  "first_overlap v ts k = Some j \<Longrightarrow>
     k \<le> j \<and> j - k < length ts \<and> set (ts ! (j - k)) \<inter> set v \<noteq> {}
     \<and> (\<forall>i < j - k. set (ts ! i) \<inter> set v = {})"
proof (induction ts arbitrary: k)
  case Nil
  then show ?case by simp
next
  case (Cons t ts)
  show ?case
  proof (cases "list_ex (\<lambda>x. x \<in> set v) t")
    case True
    with Cons.prems show ?thesis by (auto simp: list_ex_iff)
  next
    case False
    with Cons.prems have rec: "first_overlap v ts (Suc k) = Some j" by simp
    from Cons.IH [OF rec] have j: "Suc k \<le> j" "j - Suc k < length ts"
      "set (ts ! (j - Suc k)) \<inter> set v \<noteq> {}" "\<forall>i < j - Suc k. set (ts ! i) \<inter> set v = {}"
      by auto
    from j(1) have eq: "j - k = Suc (j - Suc k)" by simp
    have "set ((t # ts) ! i) \<inter> set v = {}" if "i < j - k" for i
      using that False j(4) eq by (cases i) (auto simp: list_ex_iff)
    with j eq show ?thesis by auto
  qed
qed

lemma run_no_overlap:
  assumes "\<forall>sampler \<in> set training. set (sampler data) \<inter> set (validation data) = {}"
  shows "\<exists>plots. run data features training validation learners evaluations = Inr plots"
proof -
  have "first_overlap (validation data) (map (\<lambda>sampler. sampler data) training) 0 = None"
    using assms by (simp add: first_overlap_None)
  then show ?thesis by (simp add: run_def Let_def)
qed

text \<open>
  C1. When a training sample set that is drawn shares a sample with the validation
  sample set, \<open>run()\<close> signals the overlap: it returns no score, and the signal names a
  training set that overlaps (the first one).
\<close>

theorem run_signals_overlap:
  assumes "sampler \<in> set training"
    and "set (sampler data) \<inter> set (validation data) \<noteq> {}"
  shows "\<exists>i < length training.
           run data features training validation learners evaluations = Inl (Overlap i)
         \<and> set ((training ! i) data) \<inter> set (validation data) \<noteq> {}"
proof -
  let ?ts = "map (\<lambda>sampler. sampler data) training"
  have "first_overlap (validation data) ?ts 0 \<noteq> None"
    using assms by (auto simp: first_overlap_None)
  then obtain i where i: "first_overlap (validation data) ?ts 0 = Some i" by blast
  from first_overlap_Some [OF i] have li: "i < length training"
    and ov: "set (?ts ! i) \<inter> set (validation data) \<noteq> {}" by auto
  from ov li have "set ((training ! i) data) \<inter> set (validation data) \<noteq> {}" by simp
  note li this
  moreover from i have "run data features training validation learners evaluations = Inl (Overlap i)"
    by (simp add: run_def Let_def)
  ultimately show ?thesis by auto
qed

text \<open>
  An instance, in one dimension: the validation set is the grid of seven points, the
  first training set lies on a subgrid of it.
\<close>

theorem run_signals_overlap_witness:
  "run () (\<lambda>x. x) [\<lambda>_. [0, 3, 6 :: int], \<lambda>_. [10, 11]] (\<lambda>_. [0, 1, 2, 3, 4, 5, 6])
       [\<lambda>t v. 0] [] = Inl (Overlap 0)"
proof -
  let ?training = "[\<lambda>_::unit. [0, 3, 6 :: int], \<lambda>_. [10, 11]]"
  let ?validation = "\<lambda>_::unit. [0, 1, 2, 3, 4, 5, 6 :: int]"
  have "(\<lambda>_::unit. [0, 3, 6 :: int]) \<in> set ?training" by simp
  moreover have "set ((\<lambda>_::unit. [0, 3, 6 :: int]) ()) \<inter> set (?validation ()) \<noteq> {}" by simp
  ultimately obtain i where "i < length ?training"
    "run () (\<lambda>x. x) ?training ?validation [\<lambda>t v. 0] [] = Inl (Overlap i)"
    "set ((?training ! i) ()) \<inter> set (?validation ()) \<noteq> {}"
    using run_signals_overlap [of "\<lambda>_::unit. [0, 3, 6 :: int]" ?training "()" ?validation
        "\<lambda>x. x" "[\<lambda>t v. 0]" "[]"]
    by blast
  moreover from this have "i = 0" by (cases i) auto
  ultimately show ?thesis by simp
qed

text \<open>
  C6. After \<open>run()\<close> has returned, every plot among the evaluation sinks has an auxiliary
  result that holds, under the key \<open>asymptotic_fits\<close>, one entry per learner, and each
  entry holds fit parameters under the keys \<open>offset\<close> and \<open>slope\<close>.
\<close>

theorem run_fills_auxiliary:
  assumes "run data features training validation learners evaluations = Inr plots"
  shows "length plots = length evaluations
       \<and> (\<forall>p \<in> set plots. \<exists>aux fits.
             auxiliary p = Some aux \<and> aux ''asymptotic_fits'' = Some fits
           \<and> length fits = length learners
           \<and> (\<forall>entry \<in> set fits. \<exists>offset slope.
                 entry ''offset'' = Some offset \<and> entry ''slope'' = Some slope))"
proof -
  define curves where "curves = map (\<lambda>learner.
      map (\<lambda>t. (length t, learner (map features t) (map features (validation data))))
        (map (\<lambda>sampler. sampler data) training)) learners"
  from assms have plots: "plots = map (evaluate curves) evaluations"
    by (auto simp: run_def Let_def curves_def split: option.splits)
  have len: "length curves = length learners"
    by (simp add: curves_def)
  have "\<exists>aux fits. auxiliary (evaluate curves p) = Some aux \<and> aux ''asymptotic_fits'' = Some fits
      \<and> length fits = length learners
      \<and> (\<forall>entry \<in> set fits. \<exists>offset slope.
             entry ''offset'' = Some offset \<and> entry ''slope'' = Some slope)" for p
    using len by (auto simp: evaluate_def split: prod.splits)
  with plots show ?thesis by auto
qed

text \<open>
  An instance: two learners, two training sets disjoint from the validation set, one
  plot. The run returns, and the plot holds two fits.
\<close>

theorem run_fills_auxiliary_witness:
  "\<exists>p aux fits.
      run () (\<lambda>x. x) [\<lambda>_. [1, 2 :: int], \<lambda>_. [1, 2, 3]] (\<lambda>_. [7, 8]) [\<lambda>t v. 1, \<lambda>t v. 2]
        [\<lparr>asymptotic_fit = (\<lambda>c. (0, 0)), auxiliary = None\<rparr>] = Inr [p]
    \<and> auxiliary p = Some aux \<and> aux ''asymptotic_fits'' = Some fits \<and> length fits = 2"
proof -
  let ?run = "run () (\<lambda>x. x) [\<lambda>_. [1, 2 :: int], \<lambda>_. [1, 2, 3]] (\<lambda>_. [7, 8]) [\<lambda>t v. 1, \<lambda>t v. 2]
        [\<lparr>asymptotic_fit = (\<lambda>c. (0, 0)), auxiliary = None\<rparr>]"
  have "\<exists>plots. ?run = Inr plots"
    by (rule run_no_overlap) simp
  then obtain plots where r: "?run = Inr plots" ..
  from run_fills_auxiliary [OF r] have l: "length plots = 1" and
    a: "\<forall>p \<in> set plots. \<exists>aux fits. auxiliary p = Some aux \<and> aux ''asymptotic_fits'' = Some fits
           \<and> length fits = 2" by auto
  from l obtain p where p: "plots = [p]" by (cases plots) auto
  with a r show ?thesis by auto
qed

lemma dataset_lengths:
  fixes raw :: "'e list" and default_samplef :: "'e \<Rightarrow> 's" and default_labelf :: "'e \<Rightarrow> 'l"
  defines "ds \<equiv> new_dataset raw default_samplef default_labelf"
  shows "length (samples (ds filterf labelf samplef) which) = length (labels (ds filterf labelf samplef))"
    and "num_samples (ds filterf labelf samplef) = int (length (samples (ds filterf labelf samplef) which))"
    and "map fst (zip (samples (ds filterf labelf samplef) which) (labels (ds filterf labelf samplef)))
           = samples (ds filterf labelf samplef) which"
    and "map snd (zip (samples (ds filterf labelf samplef) which) (labels (ds filterf labelf samplef)))
           = labels (ds filterf labelf samplef)"
  by (simp_all add: ds_def samples_def labels_def num_samples_def)


section \<open>Properties of the notebooks\<close>

lemma pop_Some: "pop xs = Some (s, ys) \<Longrightarrow> length xs = Suc (length ys)"
  by (auto simp: pop_def split: if_splits)

lemma samplers_for_Some:
  "samplers_for cls ms seeds = Some (xs, seeds') \<Longrightarrow>
     length xs = length ms \<and> length seeds = length ms + length seeds'
     \<and> (\<forall>x \<in> set xs. sampler_of cls x)"
proof (induction ms arbitrary: seeds xs)
  case Nil
  then show ?case by simp
next
  case (Cons m ms)
  then show ?case
    by (fastforce simp: sampler_of_def split: bind_splits dest: pop_Some)
qed

lemma sampler_rows_Some:
  "sampler_rows cls nns seeds = Some (rows, seeds') \<Longrightarrow>
     length rows = length nns
     \<and> (\<forall>row \<in> set rows. \<forall>x \<in> set row. sampler_of cls x)"
proof (induction nns arbitrary: seeds rows)
  case Nil
  then show ?case by simp
next
  case (Cons nn nns)
  then show ?case
    by (fastforce split: bind_splits dest: samplers_for_Some)
qed

lemma samplers_for_enough:
  "length ms \<le> length seeds \<Longrightarrow>
     \<exists>xs seeds'. samplers_for cls ms seeds = Some (xs, seeds') \<and> length seeds' = length seeds - length ms"
proof (induction ms arbitrary: seeds)
  case Nil
  then show ?case by simp
next
  case (Cons m ms)
  then have ne: "seeds \<noteq> []" by auto
  have "length ms \<le> length (butlast seeds)" using Cons.prems by simp
  from Cons.IH [OF this] obtain xs seeds' where
    "samplers_for cls ms (butlast seeds) = Some (xs, seeds')"
    "length seeds' = length (butlast seeds) - length ms" by blast
  with ne show ?case by (simp add: pop_def)
qed

lemma sampler_rows_enough:
  "sum_list (map length nns) \<le> length seeds \<Longrightarrow>
     \<exists>rows seeds'. sampler_rows cls nns seeds = Some (rows, seeds')
        \<and> length seeds' = length seeds - sum_list (map length nns)"
proof (induction nns arbitrary: seeds)
  case Nil
  then show ?case by simp
next
  case (Cons nn nns)
  then have "length nn \<le> length seeds" by simp
  from samplers_for_enough [OF this, of cls] obtain row seeds1 where
    r: "samplers_for cls nn seeds = Some (row, seeds1)" "length seeds1 = length seeds - length nn"
    by blast
  have "sum_list (map length nns) \<le> length seeds1" using Cons.prems r(2) by simp
  from Cons.IH [OF this] obtain rows seeds2 where
    "sampler_rows cls nns seeds1 = Some (rows, seeds2)"
    "length seeds2 = length seeds1 - sum_list (map length nns)" by blast
  with r show ?case by simp
qed

lemma panel_learners_Some:
  "panel_learners seeds = Some (ls, seeds') \<Longrightarrow>
     \<exists>s1 s2 s3. ls = [PObj RandomForestRegressionSklearn [(kw_random_state, PInt s1)],
             PObj ExtremelyRandomizedTreesRegressionSklearn [(kw_random_state, PInt s2)],
             PObj GradientBoostedTreesRegressionSklearn [(kw_random_state, PInt s3)],
             PObj RandomForestRegressionLolo []]"
  by (auto simp: panel_learners_def split: bind_splits)

lemma panel_learners_enough:
  assumes "3 \<le> length seeds"
  shows "\<exists>ls seeds'. panel_learners seeds = Some (ls, seeds') \<and> length seeds' = length seeds - 3"
proof -
  have "length seeds \<noteq> 0" "length (butlast seeds) \<noteq> 0" "length (butlast (butlast seeds)) \<noteq> 0"
    using assms by (simp_all del: length_0_conv)
  then have "seeds \<noteq> []" "butlast seeds \<noteq> []" "butlast (butlast seeds) \<noteq> []"
    by (simp_all only: length_0_conv not_False_eq_True)
  then show ?thesis
    by (simp add: panel_learners_def pop_def)
qed

lemma upt_0_3: "[0..<3] = [0, 1, 2]"
  by code_simp

lemma upt_0_2: "[0..<2] = [0, 1]"
  by code_simp

lemma length3E:
  assumes "length xs = 3"
  obtains a b c where "xs = [a, b, c]"
  using assms by (auto simp: eval_nat_numeral length_Suc_conv)

lemma panel_events_unfold:
  "panel_events cep [v0, v1] [t0, t1] learners =
     [Construct panel_prng, Call panel_prng m_random]
     @ map Construct (concat (panel_datasets cep))
     @ map Construct (concat panel_features)
     @ map (\<lambda>data. Call data m_num_samples) (panel_datasets cep ! 0)
     @ map Construct (v0 @ v1)
     @ map Construct (concat t0 @ concat t1)
     @ map Construct learners
     @ [Construct panel_cfg]
     @ map Construct [panel_plot 0 0, panel_plot 0 1, panel_plot 0 2,
                      panel_plot 1 0, panel_plot 1 1, panel_plot 1 2]
     @ concat (map (\<lambda>workflow. [Construct workflow, Call workflow m_run])
         [panel_workflow (panel_datasets cep) [t0, t1] [v0, v1] learners 0 0,
          panel_workflow (panel_datasets cep) [t0, t1] [v0, v1] learners 0 1,
          panel_workflow (panel_datasets cep) [t0, t1] [v0, v1] learners 0 2,
          panel_workflow (panel_datasets cep) [t0, t1] [v0, v1] learners 1 0,
          panel_workflow (panel_datasets cep) [t0, t1] [v0, v1] learners 1 1,
          panel_workflow (panel_datasets cep) [t0, t1] [v0, v1] learners 1 2])
     @ map (\<lambda>plot. Call plot m_auxiliary)
         [panel_plot 0 0, panel_plot 0 0, panel_plot 0 1, panel_plot 0 2,
          panel_plot 1 0, panel_plot 1 1, panel_plot 1 2]"
  by (simp add: panel_events_def Let_def upt_0_3 upt_0_2)

text \<open>
  When the panel notebook runs through, it has constructed three validation samplers and
  three rows of training samplers for each of the two rows of datasets, and four
  learners.
\<close>

lemma calc_split_sizes_length:
  "calc_split_sizes fp num_samples_of data = Inr (v, ts) \<Longrightarrow> length ts = 6"
  by (auto simp: calc_split_sizes_def Let_def length_logspace num_training_sets_def
      split: sum.splits)

lemma split_sizes_for_Some:
  "split_sizes_for fp num_samples_of row = Some sizes \<Longrightarrow>
     length sizes = length row \<and> (\<forall>x \<in> set sizes. length (snd x) = 6)"
proof (induction row arbitrary: sizes)
  case Nil
  then show ?case by simp
next
  case (Cons data row)
  then show ?case
    by (fastforce simp: returned_def split: bind_splits sum.splits dest: calc_split_sizes_length)
qed

lemma split_sizes_for_enough:
  assumes "\<forall>data \<in> set row.
      \<bar>case data of An_int k \<Rightarrow> k | A_dataset d \<Rightarrow> num_samples_of d\<bar> < 2 ^ 1024 - 2 ^ 970"
  shows "\<exists>sizes. split_sizes_for fp num_samples_of row = Some sizes"
  using assms
proof (induction row)
  case Nil
  then show ?case by simp
next
  case (Cons data row)
  then obtain sizes where "split_sizes_for fp num_samples_of row = Some sizes" by auto
  moreover from Cons.prems calc_split_sizes_returns [where data = data and num_samples_of = num_samples_of and fp = fp]
  obtain v ts where "calc_split_sizes fp num_samples_of data = Inr (v, ts)" by auto
  ultimately show ?case by (simp add: returned_def)
qed

lemma panel_split_sizes_Some:
  assumes "panel_split_sizes fp num_samples_of cep = Some ss"
  shows "length (ss ! 0) = 3" "length (ss ! 1) = 3"
    "sum_list (map length (map snd (ss ! 0))) = 18" "sum_list (map length (map snd (ss ! 1))) = 18"
proof -
  from assms obtain row0 row1 where
    r0: "split_sizes_for fp num_samples_of (map A_dataset (panel_datasets cep ! 0)) = Some row0" and
    r1: "split_sizes_for fp num_samples_of (map (\<lambda>_. An_int 650) (panel_datasets cep ! 1)) = Some row1" and
    ss: "ss = [row0, row1]"
    by (auto simp: panel_split_sizes_def split: bind_splits)
  from split_sizes_for_Some [OF r0] have l0: "length row0 = 3" "\<forall>x \<in> set row0. length (snd x) = 6"
    by (simp_all add: panel_datasets_def)
  from split_sizes_for_Some [OF r1] have l1: "length row1 = 3" "\<forall>x \<in> set row1. length (snd x) = 6"
    by (simp_all add: panel_datasets_def)
  from l0(1) obtain x0 x1 x2 where x: "row0 = [x0, x1, x2]" by (auto elim: length3E)
  from l1(1) obtain y0 y1 y2 where y: "row1 = [y0, y1, y2]" by (auto elim: length3E)
  show "length (ss ! 0) = 3" "length (ss ! 1) = 3" using l0 l1 by (simp_all add: ss)
  show "sum_list (map length (map snd (ss ! 0))) = 18" using l0(2) by (simp add: ss x)
  show "sum_list (map length (map snd (ss ! 1))) = 18" using l1(2) by (simp add: ss y)
qed

lemma panel_split_sizes_enough:
  assumes "\<forall>d \<in> set (panel_datasets cep ! 0). \<bar>num_samples_of d\<bar> < 2 ^ 1024 - 2 ^ 970"
  shows "\<exists>ss. panel_split_sizes fp num_samples_of cep = Some ss"
proof -
  have "\<exists>sizes. split_sizes_for fp num_samples_of (map A_dataset (panel_datasets cep ! 0)) = Some sizes"
    by (rule split_sizes_for_enough) (use assms in auto)
  moreover have "\<exists>sizes. split_sizes_for fp num_samples_of
      (map (\<lambda>_. An_int 650) (panel_datasets cep ! 1)) = Some sizes"
    by (rule split_sizes_for_enough) auto
  ultimately show ?thesis by (auto simp: panel_split_sizes_def)
qed

lemma panel_notebook_Some:
  assumes "panel_notebook fp seeds num_samples_of cep = Some tr"
  obtains a0 a1 a2 b0 b1 b2 r0 r1 r2 q0 q1 q2 s1 s2 s3 where
    "\<forall>x \<in> set [a0, a1, a2]. sampler_of RandomSubsetSampler x"
    "\<forall>x \<in> set [b0, b1, b2]. sampler_of RandomVectorSampler x"
    "\<forall>row \<in> set [r0, r1, r2]. \<forall>x \<in> set row. sampler_of RandomSubsetSampler x"
    "\<forall>row \<in> set [q0, q1, q2]. \<forall>x \<in> set row. sampler_of RandomVectorSampler x"
    "tr = panel_events cep [[a0, a1, a2], [b0, b1, b2]] [[r0, r1, r2], [q0, q1, q2]]
            [PObj RandomForestRegressionSklearn [(kw_random_state, PInt s1)],
             PObj ExtremelyRandomizedTreesRegressionSklearn [(kw_random_state, PInt s2)],
             PObj GradientBoostedTreesRegressionSklearn [(kw_random_state, PInt s3)],
             PObj RandomForestRegressionLolo []]"
proof -
  from assms obtain ss v0 v1 t0 t1 learners sd1 sd2 sd3 sd4 sd5 where
    ss: "panel_split_sizes fp num_samples_of cep = Some ss" and
    v0: "samplers_for RandomSubsetSampler (map fst (ss ! 0)) seeds = Some (v0, sd1)" and
    v1: "samplers_for RandomVectorSampler (map fst (ss ! 1)) sd1 = Some (v1, sd2)" and
    t0: "sampler_rows RandomSubsetSampler (map snd (ss ! 0)) sd2 = Some (t0, sd3)" and
    t1: "sampler_rows RandomVectorSampler (map snd (ss ! 1)) sd3 = Some (t1, sd4)" and
    ls: "panel_learners sd4 = Some (learners, sd5)" and
    tr: "tr = panel_events cep [v0, v1] [t0, t1] learners"
    unfolding panel_notebook_def
    by (auto split: bind_splits)
  note len = panel_split_sizes_Some(1,2) [OF ss]
  from samplers_for_Some [OF v0] len obtain a0 a1 a2 where a: "v0 = [a0, a1, a2]"
    by (auto elim: length3E)
  from samplers_for_Some [OF v1] len obtain b0 b1 b2 where b: "v1 = [b0, b1, b2]"
    by (auto elim: length3E)
  from sampler_rows_Some [OF t0] len obtain r0 r1 r2 where r: "t0 = [r0, r1, r2]"
    by (auto elim: length3E)
  from sampler_rows_Some [OF t1] len obtain q0 q1 q2 where q: "t1 = [q0, q1, q2]"
    by (auto elim: length3E)
  from panel_learners_Some [OF ls] obtain s1 s2 s3 where
    l: "learners = [PObj RandomForestRegressionSklearn [(kw_random_state, PInt s1)],
             PObj ExtremelyRandomizedTreesRegressionSklearn [(kw_random_state, PInt s2)],
             PObj GradientBoostedTreesRegressionSklearn [(kw_random_state, PInt s3)],
             PObj RandomForestRegressionLolo []]"
    by blast
  show thesis
  proof (rule that [of a0 a1 a2 b0 b1 b2 r0 r1 r2 q0 q1 q2 s1 s2 s3])
    show "\<forall>x \<in> set [a0, a1, a2]. sampler_of RandomSubsetSampler x"
      using samplers_for_Some [OF v0] a by simp
    show "\<forall>x \<in> set [b0, b1, b2]. sampler_of RandomVectorSampler x"
      using samplers_for_Some [OF v1] b by simp
    show "\<forall>row \<in> set [r0, r1, r2]. \<forall>x \<in> set row. sampler_of RandomSubsetSampler x"
      using sampler_rows_Some [OF t0] r by simp
    show "\<forall>row \<in> set [q0, q1, q2]. \<forall>x \<in> set row. sampler_of RandomVectorSampler x"
      using sampler_rows_Some [OF t1] q by simp
    show "tr = panel_events cep [[a0, a1, a2], [b0, b1, b2]] [[r0, r1, r2], [q0, q1, q2]]
            [PObj RandomForestRegressionSklearn [(kw_random_state, PInt s1)],
             PObj ExtremelyRandomizedTreesRegressionSklearn [(kw_random_state, PInt s2)],
             PObj GradientBoostedTreesRegressionSklearn [(kw_random_state, PInt s3)],
             PObj RandomForestRegressionLolo []]"
      unfolding tr a b r q l ..
  qed
qed

text \<open>
  With 45 seeds or more, and datasets whose numbers of samples can be converted to a
  float, the panel notebook runs through: it pops 45 seeds.
\<close>

lemma panel_notebook_enough:
  assumes "45 \<le> length seeds"
    and "\<forall>d \<in> set (panel_datasets cep ! 0). \<bar>num_samples_of d\<bar> < 2 ^ 1024 - 2 ^ 970"
  shows "\<exists>tr. panel_notebook fp seeds num_samples_of cep = Some tr"
proof -
  from panel_split_sizes_enough [OF assms(2)] obtain ss where
    ss: "panel_split_sizes fp num_samples_of cep = Some ss" by blast
  have len: "length (map fst (ss ! 0)) = 3" "length (map fst (ss ! 1)) = 3"
    using panel_split_sizes_Some(1,2) [OF ss] by simp_all
  note rows = panel_split_sizes_Some(3,4) [OF ss]
  have "length (map fst (ss ! 0)) \<le> length seeds"
    using assms len by simp
  from samplers_for_enough [OF this, of RandomSubsetSampler] obtain v0 sd1 where
    v0: "samplers_for RandomSubsetSampler (map fst (ss ! 0)) seeds = Some (v0, sd1)" and
    "length sd1 = length seeds - length (map fst (ss ! 0))" by blast
  then have l1: "length sd1 = length seeds - 3" using len by simp
  have "length (map fst (ss ! 1)) \<le> length sd1"
    using assms len l1 by simp
  from samplers_for_enough [OF this, of RandomVectorSampler] obtain v1 sd2 where
    v1: "samplers_for RandomVectorSampler (map fst (ss ! 1)) sd1 = Some (v1, sd2)" and
    "length sd2 = length sd1 - length (map fst (ss ! 1))" by blast
  then have l2: "length sd2 = length seeds - 6" using len l1 by simp
  have "sum_list (map length (map snd (ss ! 0))) \<le> length sd2"
    using assms rows l2 by simp
  from sampler_rows_enough [OF this, of RandomSubsetSampler] obtain t0 sd3 where
    t0: "sampler_rows RandomSubsetSampler (map snd (ss ! 0)) sd2 = Some (t0, sd3)" and
    "length sd3 = length sd2 - sum_list (map length (map snd (ss ! 0)))" by blast
  then have l3: "length sd3 = length seeds - 24" using rows l2 by simp
  have "sum_list (map length (map snd (ss ! 1))) \<le> length sd3"
    using assms rows l3 by simp
  from sampler_rows_enough [OF this, of RandomVectorSampler] obtain t1 sd4 where
    t1: "sampler_rows RandomVectorSampler (map snd (ss ! 1)) sd3 = Some (t1, sd4)" and
    "length sd4 = length sd3 - sum_list (map length (map snd (ss ! 1)))" by blast
  then have l4: "length sd4 = length seeds - 42" using rows l3 by simp
  have "3 \<le> length sd4" using assms l4 by simp
  from panel_learners_enough [OF this] obtain ls sd5 where
    ls: "panel_learners sd4 = Some (ls, sd5)" by blast
  show ?thesis
    by (simp add: panel_notebook_def ss v0 v1 t0 t1 ls del: One_nat_def)
qed

subsection \<open>Events and the objects in them\<close>

lemma in_parts_self: "v \<in> set (parts v)"
  by (cases v) simp_all

lemma in_parts_PSeq: "x \<in> set xs \<Longrightarrow> x \<in> set (parts (PSeq xs))"
  using in_parts_self by auto

lemma is_instance_simps:
  "is_instance cs (PObj c kws) \<longleftrightarrow> c \<in> set cs"
  "is_instance cs PNone = False"
  "is_instance cs (PInt i) = False"
  "is_instance cs (PBool b) = False"
  "is_instance cs (PStr s) = False"
  "is_instance cs (PFun s) = False"
  "is_instance cs (PExt s) = False"
  "is_instance cs (PSeq xs) = False"
  by (simp_all add: is_instance_def)

lemma holds_instance_simps:
  "holds_instance cs PNone = False"
  "holds_instance cs (PInt i) = False"
  "holds_instance cs (PBool b) = False"
  "holds_instance cs (PStr s) = False"
  "holds_instance cs (PFun s) = False"
  "holds_instance cs (PExt s) = False"
  "holds_instance cs (PSeq xs) = list_ex (holds_instance cs) xs"
  "holds_instance cs (PObj c kws) = (c \<in> set cs \<or> list_ex (\<lambda>kv. holds_instance cs (snd kv)) kws)"
  by (auto simp: holds_instance_def is_instance_def list_ex_iff)

lemmas event_preds = constructed_with_def passed_only_as_def constructed_with_some_def constructed_only_with_def
  supplies_def holds_instance_simps is_instance_simps keyword_names_def
  sampler_classes_def learner_classes_def dataset_classes_def workflow_classes_def
  seeded_learner_classes_def synthetic_dataset_classes_def tabulated_dataset_classes_def

lemma sampler_event_ok:
  "sampler_of c x \<Longrightarrow> c \<in> set sampler_classes \<Longrightarrow> event_ok (Construct x)"
  by (auto simp: sampler_of_def event_ok_def event_preds)

lemma samplers_events_ok:
  "\<forall>x \<in> set xs. sampler_of c x \<Longrightarrow> c \<in> set sampler_classes \<Longrightarrow> list_all event_ok (map Construct xs)"
  by (auto simp: list_all_iff intro: sampler_event_ok)

lemma holds_instance_sampler:
  "sampler_of c x \<Longrightarrow> holds_instance cs x \<longleftrightarrow> c \<in> set cs"
  by (auto simp: sampler_of_def holds_instance_simps)

lemma holds_instance_samplers:
  "\<forall>x \<in> set xs. sampler_of c x \<Longrightarrow> list_ex (holds_instance cs) xs \<longleftrightarrow> xs \<noteq> [] \<and> c \<in> set cs"
  by (induction xs) (auto simp: holds_instance_sampler)

lemma sampler_is_instance: "sampler_of c x \<Longrightarrow> is_instance cs x \<longleftrightarrow> c \<in> set cs"
  by (auto simp: sampler_of_def is_instance_def)

lemma list_all_event_okD:
  assumes "list_all event_ok tr"
  shows "list_all (constructed_with workflow_classes [kw_data, kw_training, kw_validation, kw_learners]) tr"
    and "list_all (constructed_with seeded_learner_classes [kw_random_state]) tr"
    and "list_all (constructed_only_with [RandomForestRegressionLolo] []) tr"
    and "list_all (constructed_only_with learner_classes
                     [kw_random_state, kw_kernel, kw_uncertainties]) tr"
    and "list_all (passed_only_as learner_classes [kw_learners]) tr"
    and "list_all (constructed_with sampler_classes [kw_size, kw_rng]) tr"
    and "list_all (passed_only_as sampler_classes [kw_training, kw_validation]) tr"
    and "list_all (constructed_only_with synthetic_dataset_classes [kw_dimensions]) tr"
    and "list_all (constructed_with_some tabulated_dataset_classes
                     [kw_filter, kw_labelf, kw_samplef]) tr"
  using assms by (simp_all add: list_all_iff event_ok_def)

subsection \<open>The call of \<open>run()\<close> after the construction of a workflow\<close>

lemma run_follows_append: "run_follows xs \<Longrightarrow> run_follows ys \<Longrightarrow> run_follows (xs @ ys)"
  by (induction xs rule: run_follows.induct) auto

lemma run_follows_Constructs:
  "\<forall>v \<in> set vs. \<not> is_instance workflow_classes v \<Longrightarrow> run_follows (map Construct vs)"
  by (induction vs) auto

lemma run_follows_Calls: "run_follows (map (\<lambda>x. Call x m) xs)"
  by (induction xs) auto

lemma run_follows_loop:
  "run_follows (concat (map (\<lambda>workflow. [Construct workflow, Call workflow m_run]) ws))"
  by (induction ws) auto

lemma used_in_runI:
  assumes "Construct (PObj LearningCurveRegression kws) \<in> set tr"
    and "Call (PObj LearningCurveRegression kws) m_run \<in> set tr"
    and "map_of kws k = Some a" and "k \<in> set ks" and "v \<in> set (parts a)"
  shows "used_in_run tr ks v"
  unfolding used_in_run_def list_ex_iff
  using assms
  by (intro bexI [of _ "Construct (PObj LearningCurveRegression kws)"])
     (auto simp: is_instance_def workflow_classes_def argument_def intro!: bexI [of _ k])

lemma used_where_simps:
  "used_where cs ks tr (Call t m)"
  "used_where cs ks tr (Construct (PObj c kws)) \<longleftrightarrow> (c \<in> set cs \<longrightarrow> used_in_run tr ks (PObj c kws))"
  by (simp_all add: used_where_def is_instance_def)

lemma used_whereI: "used_in_run tr ks v \<Longrightarrow> used_where cs ks tr (Construct v)"
  by (simp add: used_where_def)

lemma used_where_other: "\<not> is_instance cs v \<Longrightarrow> used_where cs ks tr (Construct v)"
  by (simp add: used_where_def)

lemma used_where_all:
  "\<forall>x \<in> set xs. used_in_run tr ks x \<Longrightarrow> list_all (used_where cs ks tr) (map Construct xs)"
  by (simp add: list_all_iff used_whereI)

lemma used_where_none:
  "\<forall>x \<in> set xs. \<not> is_instance cs x \<Longrightarrow> list_all (used_where cs ks tr) (map Construct xs)"
  by (simp add: list_all_iff used_where_other)

subsection \<open>The band-gap and Friedman notebooks\<close>

lemma bandgap_properties:
  "list_all event_ok bandgap_notebook"
  "run_follows bandgap_notebook"
  "all_used_in_run sampler_classes [kw_training, kw_validation] bandgap_notebook"
  "all_used_in_run learner_classes [kw_learners] bandgap_notebook"
  by code_simp+

lemma friedman_properties:
  "list_all event_ok friedman_notebook"
  "run_follows friedman_notebook"
  "all_used_in_run sampler_classes [kw_training, kw_validation] friedman_notebook"
  "all_used_in_run learner_classes [kw_learners] friedman_notebook"
  by code_simp+

subsection \<open>The watercolor notebook\<close>

lemma watercolor_training_samplers:
  "\<forall>x \<in> set (watercolor_training sizes). sampler_of RandomSubsetSampler x"
  by (auto simp: watercolor_training_def sampler_of_def)

lemma watercolor_validation_sampler: "sampler_of RandomSubsetSampler (watercolor_validation m)"
  by (simp add: watercolor_validation_def sampler_of_def)

lemmas watercolor_objects = watercolor_dataset_def watercolor_dataset_primary_def
  watercolor_features_def watercolor_learner_gpr_skl_def watercolor_learner_rf_skl_def
  watercolor_learner_ert_skl_def watercolor_learning_curve_def

lemma watercolor_events_ok: "list_all event_ok (watercolor_events m sizes)"
proof -
  note s = holds_instance_samplers [OF watercolor_training_samplers]
    holds_instance_sampler [OF watercolor_validation_sampler]
  have "event_ok (Construct (watercolor_workflow m sizes))"
    by (simp add: watercolor_workflow_def watercolor_objects event_ok_def event_preds s)
  moreover have "event_ok (Call (watercolor_workflow m sizes) m_run)"
    by (simp add: watercolor_workflow_def event_ok_def event_preds)
  moreover have "event_ok (Construct (watercolor_validation m))"
    by (rule sampler_event_ok [OF watercolor_validation_sampler]) (simp add: sampler_classes_def)
  moreover have "list_all event_ok (map Construct (watercolor_training sizes))"
    by (rule samplers_events_ok [OF watercolor_training_samplers]) (simp add: sampler_classes_def)
  moreover have "list_all event_ok
    [Construct watercolor_dataset_primary,
     Call watercolor_dataset_primary (m_samples []), Call watercolor_dataset_primary m_labels,
     Construct watercolor_dataset, Construct watercolor_features,
     Call watercolor_dataset m_num_samples, Call watercolor_dataset m_num_samples,
     Construct watercolor_learner_gpr_skl, Construct watercolor_learner_rf_skl,
       Construct watercolor_learner_ert_skl, Construct watercolor_learning_curve]"
    by (simp add: watercolor_objects event_ok_def event_preds)
  ultimately show ?thesis
    by (simp add: watercolor_events_def)
qed

lemma watercolor_events_properties:
  "list_all event_ok (watercolor_events m sizes)"
  "run_follows (watercolor_events m sizes)"
  "all_used_in_run sampler_classes [kw_training, kw_validation] (watercolor_events m sizes)"
  "all_used_in_run learner_classes [kw_learners] (watercolor_events m sizes)"
  "list_all (constructed_with workflow_classes [kw_features, kw_evaluations]) (watercolor_events m sizes)"
proof -
  let ?tr = "watercolor_events m sizes"
  note ts = watercolor_training_samplers [of sizes] and vs = watercolor_validation_sampler [of m]
  have nw: "\<forall>x \<in> set (watercolor_training sizes). \<not> is_instance cs x"
    if "RandomSubsetSampler \<notin> set cs" for cs
    using that ts by (auto simp: sampler_is_instance)
  have nv: "\<not> is_instance cs (watercolor_validation m)" if "RandomSubsetSampler \<notin> set cs" for cs
    using that vs by (auto simp: sampler_is_instance)
  note nwf = nw [of workflow_classes, unfolded workflow_classes_def, simplified]
    nv [of workflow_classes, unfolded workflow_classes_def, simplified]
  note nl = nw [of learner_classes, unfolded learner_classes_def, simplified]
    nv [of learner_classes, unfolded learner_classes_def, simplified]
  note nd = nw [of dataset_classes, unfolded dataset_classes_def, simplified]
    nv [of dataset_classes, unfolded dataset_classes_def, simplified]
  show "list_all event_ok ?tr" by (rule watercolor_events_ok)
  show "run_follows ?tr"
    using nwf
    by (simp add: watercolor_events_def run_follows_append run_follows_Constructs
        workflow_classes_def is_instance_simps watercolor_objects watercolor_workflow_def)
  have w: "Construct (watercolor_workflow m sizes) \<in> set ?tr" "Call (watercolor_workflow m sizes) m_run \<in> set ?tr"
    by (simp_all add: watercolor_events_def)
  have used: "used_in_run ?tr ks v"
    if "map_of [(kw_data, watercolor_dataset), (kw_features, watercolor_features),
       (kw_training, PSeq (watercolor_training sizes)),
       (kw_validation, watercolor_validation m),
       (kw_learners, PSeq [watercolor_learner_rf_skl, watercolor_learner_ert_skl,
                            watercolor_learner_gpr_skl]),
       (kw_evaluations, PSeq [watercolor_learning_curve])] k = Some a"
      "k \<in> set ks" "v \<in> set (parts a)" for ks k a v
    using w that unfolding watercolor_workflow_def by (rule used_in_runI)
  have uv: "used_in_run ?tr [kw_training, kw_validation] (watercolor_validation m)"
    by (intro used [of kw_validation "watercolor_validation m"])
       (simp_all add: in_parts_self del: parts.simps)
  have ut: "\<forall>x \<in> set (watercolor_training sizes). used_in_run ?tr [kw_training, kw_validation] x"
    by (intro ballI used [of kw_training "PSeq (watercolor_training sizes)"])
       (simp_all add: in_parts_PSeq del: parts.simps)
  have ul: "\<forall>x \<in> set [watercolor_learner_rf_skl, watercolor_learner_ert_skl, watercolor_learner_gpr_skl].
      used_in_run ?tr [kw_learners] x"
    by (intro ballI used [of kw_learners "PSeq [watercolor_learner_rf_skl, watercolor_learner_ert_skl,
                            watercolor_learner_gpr_skl]"])
       (simp_all add: in_parts_PSeq del: parts.simps)
  have "list_all (used_where sampler_classes [kw_training, kw_validation] tr') ?tr"
    if "used_in_run tr' [kw_training, kw_validation] (watercolor_validation m)"
      "\<forall>x \<in> set (watercolor_training sizes). used_in_run tr' [kw_training, kw_validation] x" for tr'
    using that
    by (simp add: watercolor_events_def watercolor_objects watercolor_workflow_def list_all_iff
        used_where_simps used_whereI sampler_classes_def)
  from this [OF uv ut]
  show "all_used_in_run sampler_classes [kw_training, kw_validation] ?tr"
    by (simp add: all_used_in_run_def)
  have "list_all (used_where learner_classes [kw_learners] tr') ?tr"
    if "\<forall>x \<in> set [watercolor_learner_rf_skl, watercolor_learner_ert_skl, watercolor_learner_gpr_skl].
      used_in_run tr' [kw_learners] x" for tr'
    using that nl
    by (simp add: watercolor_events_def watercolor_objects watercolor_workflow_def list_all_iff
        used_where_simps used_where_other learner_classes_def)
  from this [OF ul]
  show "all_used_in_run learner_classes [kw_learners] ?tr"
    by (simp add: all_used_in_run_def)
  show "list_all (constructed_with workflow_classes [kw_features, kw_evaluations]) ?tr"
    using nwf
    by (simp add: watercolor_events_def list_all_iff constructed_with_def
        workflow_classes_def watercolor_objects watercolor_workflow_def is_instance_simps
        supplies_def keyword_names_def)
qed

lemma watercolor_notebook_Some:
  assumes "watercolor_notebook fp num_samples_of = Some tr"
  obtains m sizes where "tr = watercolor_events m sizes"
  using assms by (auto simp: watercolor_notebook_def split: sum.splits)

lemma watercolor_properties:
  assumes "watercolor_notebook fp num_samples_of = Some tr"
  shows "list_all event_ok tr"
    and "run_follows tr"
    and "all_used_in_run sampler_classes [kw_training, kw_validation] tr"
    and "all_used_in_run learner_classes [kw_learners] tr"
    and "list_all (constructed_with workflow_classes [kw_features, kw_evaluations]) tr"
  using assms watercolor_events_properties by (auto elim!: watercolor_notebook_Some)

text \<open>
  The watercolor notebook runs through when its dataset has a number of samples that is
  not negative and below \<open>2 ^ 63\<close>.
\<close>

lemma watercolor_fraction_eq: "watercolor_fraction = 5404319552844595 / 2 ^ 55"
  by code_simp

lemma watercolor_notebook_enough:
  assumes "0 \<le> num_samples_of watercolor_dataset" "num_samples_of watercolor_dataset < 2 ^ 63"
  shows "\<exists>tr. watercolor_notebook fp num_samples_of = Some tr"
proof -
  define n where "n = num_samples_of watercolor_dataset"
  define x where "x = watercolor_fraction * rne (real_of_int n)"
  note c = watercolor_fraction_eq
  have n: "0 \<le> n" "n < 2 ^ 63" using assms by (simp_all add: n_def)
  then have "\<bar>n\<bar> < 2 ^ 1024 - 2 ^ 970" by simp
  then have f: "float_times_int (Fin watercolor_fraction) n = Inr (Fin (rne x))"
    unfolding x_def by (intro float_times_int_in_range) (simp_all add: c)
  have "real_of_int 0 \<le> rne (real_of_int n)" using n(1) by (intro rne_ge_int) simp_all
  then have r0: "0 \<le> rne (real_of_int n)" by simp
  then have x0: "0 \<le> x" by (simp add: x_def c)
  then have "real_of_int 0 \<le> rne x" by (intro rne_ge_int) simp_all
  then have m0: "0 \<le> py_round (rne x)" by (rule py_round_ge)
  have "\<bar>rne (real_of_int n)\<bar> \<le> 2 * \<bar>real_of_int n\<bar>" by (rule rne_abs_le)
  then have "rne (real_of_int n) \<le> 2 * real_of_int n" using n(1) r0 by simp
  then have "x \<le> 1 / 2 * real_of_int n" using r0 by (simp add: x_def c)
  moreover have "\<bar>rne x\<bar> \<le> 2 * \<bar>x\<bar>" by (rule rne_abs_le)
  ultimately have "rne x \<le> real_of_int n" using x0 by linarith
  then have "py_round (rne x) \<le> n" by (rule py_round_le)
  with m0 n have r: "- (2 ^ 63) \<le> n - py_round (rne x)" "n - py_round (rne x) < 2 ^ 64" by simp_all
  show ?thesis
    unfolding watercolor_notebook_def watercolor_m_def watercolor_training_sizes_def
      np_log10_int_def n_def [symmetric] f
    using r by simp
qed

subsection \<open>The panel notebook\<close>

lemmas panel_objects = panel_prng_def panel_datasets_def panel_features_def panel_cfg_def
  panel_plot_def

lemma panel_properties:
  assumes "panel_notebook fp seeds f cep = Some tr"
  shows "list_all event_ok tr"
    and "run_follows tr"
    and "all_used_in_run sampler_classes [kw_training, kw_validation] tr"
    and "all_used_in_run learner_classes [kw_learners] tr"
    and "list_all (constructed_with workflow_classes [kw_features, kw_evaluations]) tr"
proof -
  from assms obtain a0 a1 a2 b0 b1 b2 r0 r1 r2 q0 q1 q2 s1 s2 s3 where
    a: "\<forall>x \<in> set [a0, a1, a2]. sampler_of RandomSubsetSampler x" and
    b: "\<forall>x \<in> set [b0, b1, b2]. sampler_of RandomVectorSampler x" and
    r: "\<forall>row \<in> set [r0, r1, r2]. \<forall>x \<in> set row. sampler_of RandomSubsetSampler x" and
    q: "\<forall>row \<in> set [q0, q1, q2]. \<forall>x \<in> set row. sampler_of RandomVectorSampler x" and
    tr0: "tr = panel_events cep [[a0, a1, a2], [b0, b1, b2]] [[r0, r1, r2], [q0, q1, q2]]
            [PObj RandomForestRegressionSklearn [(kw_random_state, PInt s1)],
             PObj ExtremelyRandomizedTreesRegressionSklearn [(kw_random_state, PInt s2)],
             PObj GradientBoostedTreesRegressionSklearn [(kw_random_state, PInt s3)],
             PObj RandomForestRegressionLolo []]"
    by (rule panel_notebook_Some)
  let ?L = "[PObj RandomForestRegressionSklearn [(kw_random_state, PInt s1)],
             PObj ExtremelyRandomizedTreesRegressionSklearn [(kw_random_state, PInt s2)],
             PObj GradientBoostedTreesRegressionSklearn [(kw_random_state, PInt s3)],
             PObj RandomForestRegressionLolo []]"
  let ?S = "[a0, a1, a2, b0, b1, b2]"
  let ?R = "r0 @ r1 @ r2 @ q0 @ q1 @ q2"
  let ?W00 = "PObj LearningCurveRegression
       [(kw_data, panel_datasets cep ! 0 ! 0), (kw_features, panel_features ! 0 ! 0),
        (kw_training, PSeq r0), (kw_validation, a0), (kw_learners, PSeq ?L),
        (kw_evaluations, PSeq [panel_plot 0 0])]"
  let ?W01 = "PObj LearningCurveRegression
       [(kw_data, panel_datasets cep ! 0 ! 1), (kw_features, panel_features ! 0 ! 1),
        (kw_training, PSeq r1), (kw_validation, a1), (kw_learners, PSeq ?L),
        (kw_evaluations, PSeq [panel_plot 0 1])]"
  let ?W02 = "PObj LearningCurveRegression
       [(kw_data, panel_datasets cep ! 0 ! 2), (kw_features, panel_features ! 0 ! 2),
        (kw_training, PSeq r2), (kw_validation, a2), (kw_learners, PSeq ?L),
        (kw_evaluations, PSeq [panel_plot 0 2])]"
  let ?W10 = "PObj LearningCurveRegression
       [(kw_data, panel_datasets cep ! 1 ! 0), (kw_features, panel_features ! 1 ! 0),
        (kw_training, PSeq q0), (kw_validation, b0), (kw_learners, PSeq ?L),
        (kw_evaluations, PSeq [panel_plot 1 0])]"
  let ?W11 = "PObj LearningCurveRegression
       [(kw_data, panel_datasets cep ! 1 ! 1), (kw_features, panel_features ! 1 ! 1),
        (kw_training, PSeq q1), (kw_validation, b1), (kw_learners, PSeq ?L),
        (kw_evaluations, PSeq [panel_plot 1 1])]"
  let ?W12 = "PObj LearningCurveRegression
       [(kw_data, panel_datasets cep ! 1 ! 2), (kw_features, panel_features ! 1 ! 2),
        (kw_training, PSeq q2), (kw_validation, b2), (kw_learners, PSeq ?L),
        (kw_evaluations, PSeq [panel_plot 1 2])]"
  let ?WS = "[?W00, ?W01, ?W02, ?W10, ?W11, ?W12]"
  let ?P = "[panel_plot 0 0, panel_plot 0 1, panel_plot 0 2,
             panel_plot 1 0, panel_plot 1 1, panel_plot 1 2]"
  have tr: "tr = [Construct panel_prng, Call panel_prng m_random]
      @ map Construct (concat (panel_datasets cep))
      @ map Construct (concat panel_features)
      @ map (\<lambda>data. Call data m_num_samples) (panel_datasets cep ! 0)
      @ map Construct ?S
      @ map Construct ?R
      @ map Construct ?L
      @ [Construct panel_cfg]
      @ map Construct ?P
      @ concat (map (\<lambda>workflow. [Construct workflow, Call workflow m_run]) ?WS)
      @ map (\<lambda>plot. Call plot m_auxiliary) (panel_plot 0 0 # ?P)"
    unfolding tr0 panel_events_unfold by (simp add: panel_workflow_def)
  have sub: "RandomSubsetSampler \<in> set sampler_classes" "RandomVectorSampler \<in> set sampler_classes"
    by (simp_all add: sampler_classes_def)
  have other: "\<forall>x \<in> set (?S @ ?R). \<not> is_instance cs x"
    if "RandomSubsetSampler \<notin> set cs" "RandomVectorSampler \<notin> set cs" for cs
  proof
    fix x assume "x \<in> set (?S @ ?R)"
    then have "x \<in> set [a0, a1, a2] \<or> (\<exists>row \<in> set [r0, r1, r2]. x \<in> set row)
        \<or> x \<in> set [b0, b1, b2] \<or> (\<exists>row \<in> set [q0, q1, q2]. x \<in> set row)"
      by auto
    with a b r q consider "sampler_of RandomSubsetSampler x" | "sampler_of RandomVectorSampler x"
      by blast
    then show "\<not> is_instance cs x"
      using that by cases (simp_all add: sampler_is_instance)
  qed
  note nwf = other [of workflow_classes, unfolded workflow_classes_def, simplified]
  have nl: "\<forall>x \<in> set (?S @ ?R). \<not> is_instance learner_classes x"
    by (rule other) (simp_all add: learner_classes_def)

  have s0: "list_all event_ok [Construct panel_prng, Call panel_prng m_random]"
    by (simp add: panel_objects event_ok_def event_preds)
  have s1: "list_all event_ok (map Construct (concat (panel_datasets cep)))"
    by (simp add: panel_objects event_ok_def event_preds)
  have s2: "list_all event_ok (map Construct (concat panel_features))"
    by (simp add: panel_objects event_ok_def event_preds)
  have s3: "list_all event_ok (map (\<lambda>data. Call data m_num_samples) (panel_datasets cep ! 0))"
    by (simp add: panel_objects event_ok_def event_preds)
  have s4: "list_all event_ok (map Construct ?S)"
    using a b sub by (auto intro: sampler_event_ok)
  have s5: "list_all event_ok (map Construct ?R)"
    using r q sub by (auto intro: samplers_events_ok)
  have s6: "list_all event_ok (map Construct ?L)"
    by (simp add: event_ok_def event_preds)
  have s7: "list_all event_ok [Construct panel_cfg]"
    by (simp add: panel_objects event_ok_def event_preds)
  have s8: "list_all event_ok (map Construct ?P)"
    by (simp add: panel_objects event_ok_def event_preds)
  have s10: "list_all event_ok (map (\<lambda>plot. Call plot m_auxiliary) (panel_plot 0 0 # ?P))"
    by (simp add: panel_objects event_ok_def event_preds)
  have hv: "holds_instance cs a0 \<longleftrightarrow> RandomSubsetSampler \<in> set cs"
    "holds_instance cs a1 \<longleftrightarrow> RandomSubsetSampler \<in> set cs"
    "holds_instance cs a2 \<longleftrightarrow> RandomSubsetSampler \<in> set cs"
    "holds_instance cs b0 \<longleftrightarrow> RandomVectorSampler \<in> set cs"
    "holds_instance cs b1 \<longleftrightarrow> RandomVectorSampler \<in> set cs"
    "holds_instance cs b2 \<longleftrightarrow> RandomVectorSampler \<in> set cs" for cs
    using a b
    by (simp_all add: holds_instance_sampler [of RandomSubsetSampler]
        holds_instance_sampler [of RandomVectorSampler])
  have ht: "list_ex (holds_instance cs) r0 \<longleftrightarrow> r0 \<noteq> [] \<and> RandomSubsetSampler \<in> set cs"
    "list_ex (holds_instance cs) r1 \<longleftrightarrow> r1 \<noteq> [] \<and> RandomSubsetSampler \<in> set cs"
    "list_ex (holds_instance cs) r2 \<longleftrightarrow> r2 \<noteq> [] \<and> RandomSubsetSampler \<in> set cs"
    "list_ex (holds_instance cs) q0 \<longleftrightarrow> q0 \<noteq> [] \<and> RandomVectorSampler \<in> set cs"
    "list_ex (holds_instance cs) q1 \<longleftrightarrow> q1 \<noteq> [] \<and> RandomVectorSampler \<in> set cs"
    "list_ex (holds_instance cs) q2 \<longleftrightarrow> q2 \<noteq> [] \<and> RandomVectorSampler \<in> set cs" for cs
    using r q
    by (simp_all add: holds_instance_samplers [of _ RandomSubsetSampler]
        holds_instance_samplers [of _ RandomVectorSampler])
  have s9: "list_all event_ok (concat (map (\<lambda>workflow. [Construct workflow, Call workflow m_run]) ?WS))"
    by (simp add: panel_objects event_ok_def event_preds hv ht)
  show "list_all event_ok tr"
    unfolding tr list_all_append using s0 s1 s2 s3 s4 s5 s6 s7 s8 s9 s10 by blast

  have "run_follows [Construct panel_prng, Call panel_prng m_random]"
    "run_follows (map Construct (concat (panel_datasets cep)))"
    "run_follows (map Construct (concat panel_features))"
    "run_follows (map (\<lambda>data. Call data m_num_samples) (panel_datasets cep ! 0))"
    "run_follows (map Construct ?S)"
    "run_follows (map Construct ?R)"
    "run_follows (map Construct ?L)"
    "run_follows [Construct panel_cfg]"
    "run_follows (map Construct ?P)"
    "run_follows (concat (map (\<lambda>workflow. [Construct workflow, Call workflow m_run]) ?WS))"
    "run_follows (map (\<lambda>plot. Call plot m_auxiliary) (panel_plot 0 0 # ?P))"
    using nwf
    by (simp_all only: run_follows_Calls run_follows_loop)
       (simp_all add: run_follows_append run_follows_Constructs panel_objects is_instance_simps
          workflow_classes_def)
  then show "run_follows tr"
    unfolding tr by (intro run_follows_append)

  have W00: "Construct ?W00 \<in> set tr" "Call ?W00 m_run \<in> set tr"
    by (simp_all add: tr)
  have W01: "Construct ?W01 \<in> set tr" "Call ?W01 m_run \<in> set tr"
    by (simp_all add: tr)
  have W02: "Construct ?W02 \<in> set tr" "Call ?W02 m_run \<in> set tr"
    by (simp_all add: tr)
  have W10: "Construct ?W10 \<in> set tr" "Call ?W10 m_run \<in> set tr"
    by (simp_all add: tr)
  have W11: "Construct ?W11 \<in> set tr" "Call ?W11 m_run \<in> set tr"
    by (simp_all add: tr)
  have W12: "Construct ?W12 \<in> set tr" "Call ?W12 m_run \<in> set tr"
    by (simp_all add: tr)

  have ua0: "used_in_run tr [kw_training, kw_validation] a0"
    by (rule used_in_runI [OF W00, of kw_validation a0]) (simp_all add: in_parts_self del: parts.simps)
  have ur0: "\<forall>x \<in> set r0. used_in_run tr [kw_training, kw_validation] x"
    by (intro ballI used_in_runI [OF W00, of kw_training "PSeq r0"]) (simp_all add: in_parts_PSeq del: parts.simps)
  have ua1: "used_in_run tr [kw_training, kw_validation] a1"
    by (rule used_in_runI [OF W01, of kw_validation a1]) (simp_all add: in_parts_self del: parts.simps)
  have ur1: "\<forall>x \<in> set r1. used_in_run tr [kw_training, kw_validation] x"
    by (intro ballI used_in_runI [OF W01, of kw_training "PSeq r1"]) (simp_all add: in_parts_PSeq del: parts.simps)
  have ua2: "used_in_run tr [kw_training, kw_validation] a2"
    by (rule used_in_runI [OF W02, of kw_validation a2]) (simp_all add: in_parts_self del: parts.simps)
  have ur2: "\<forall>x \<in> set r2. used_in_run tr [kw_training, kw_validation] x"
    by (intro ballI used_in_runI [OF W02, of kw_training "PSeq r2"]) (simp_all add: in_parts_PSeq del: parts.simps)
  have ub0: "used_in_run tr [kw_training, kw_validation] b0"
    by (rule used_in_runI [OF W10, of kw_validation b0]) (simp_all add: in_parts_self del: parts.simps)
  have uq0: "\<forall>x \<in> set q0. used_in_run tr [kw_training, kw_validation] x"
    by (intro ballI used_in_runI [OF W10, of kw_training "PSeq q0"]) (simp_all add: in_parts_PSeq del: parts.simps)
  have ub1: "used_in_run tr [kw_training, kw_validation] b1"
    by (rule used_in_runI [OF W11, of kw_validation b1]) (simp_all add: in_parts_self del: parts.simps)
  have uq1: "\<forall>x \<in> set q1. used_in_run tr [kw_training, kw_validation] x"
    by (intro ballI used_in_runI [OF W11, of kw_training "PSeq q1"]) (simp_all add: in_parts_PSeq del: parts.simps)
  have ub2: "used_in_run tr [kw_training, kw_validation] b2"
    by (rule used_in_runI [OF W12, of kw_validation b2]) (simp_all add: in_parts_self del: parts.simps)
  have uq2: "\<forall>x \<in> set q2. used_in_run tr [kw_training, kw_validation] x"
    by (intro ballI used_in_runI [OF W12, of kw_training "PSeq q2"]) (simp_all add: in_parts_PSeq del: parts.simps)
  have ul: "\<forall>x \<in> set ?L. used_in_run tr [kw_learners] x"
    by (intro ballI used_in_runI [OF W00, of kw_learners "PSeq ?L"]) (simp_all add: in_parts_PSeq del: parts.simps)

  have uS: "\<forall>x \<in> set ?S. used_in_run tr [kw_training, kw_validation] x"
    and uR: "\<forall>x \<in> set ?R. used_in_run tr [kw_training, kw_validation] x"
    using ua0 ur0 ua1 ur1 ua2 ur2 ub0 uq0 ub1 uq1 ub2 uq2 by (simp_all add: ball_Un)
  have "list_all (used_where sampler_classes [kw_training, kw_validation] tr') tr"
    if "list_all (used_where sampler_classes [kw_training, kw_validation] tr') (map Construct ?S)"
      "list_all (used_where sampler_classes [kw_training, kw_validation] tr') (map Construct ?R)"
    for tr'
    unfolding tr list_all_append
    using that
    by (simp add: panel_objects used_where_simps sampler_classes_def)
  from this [OF used_where_all [OF uS] used_where_all [OF uR]]
  show "all_used_in_run sampler_classes [kw_training, kw_validation] tr"
    by (simp add: all_used_in_run_def)

  have "list_all (used_where learner_classes [kw_learners] tr') tr"
    if "\<forall>x \<in> set ?L. used_in_run tr' [kw_learners] x"
      "list_all (used_where learner_classes [kw_learners] tr') (map Construct (?S @ ?R))"
    for tr'
    unfolding tr list_all_append
    using that
    by (simp add: panel_objects used_where_simps learner_classes_def)
  from this [OF ul used_where_none [OF nl]]
  show "all_used_in_run learner_classes [kw_learners] tr"
    by (simp add: all_used_in_run_def)

  show "list_all (constructed_with workflow_classes [kw_features, kw_evaluations]) tr"
    unfolding tr list_all_append
    using nwf
    by (simp add: panel_objects list_all_iff ball_Un constructed_with_def is_instance_simps
        workflow_classes_def supplies_def keyword_names_def)
qed

section \<open>The claims about the notebooks\<close>

text \<open>
  C3, as stated: every construction of the workflow supplies the data, the features, the
  training samplers, the validation sampler, the learners and the evaluation sinks. The
  first workflow of the Friedman notebook is constructed with neither features nor
  evaluation sinks, and the second one without features.
\<close>

theorem friedman_workflow_without_features:
  "Construct friedman_workflow_1 \<in> set friedman_notebook
   \<and> is_instance workflow_classes friedman_workflow_1
   \<and> \<not> supplies [kw_features] friedman_workflow_1
   \<and> \<not> supplies [kw_evaluations] friedman_workflow_1
   \<and> Construct friedman_workflow_2 \<in> set friedman_notebook
   \<and> is_instance workflow_classes friedman_workflow_2
   \<and> \<not> supplies [kw_features] friedman_workflow_2"
  by code_simp

text \<open>
  C3, amended. Every construction of the \<open>LearningCurveRegression\<close> workflow in the
  notebooks supplies the data, the training samplers, the validation sampler and the
  learners, and \<open>run()\<close> of the constructed workflow is called afterwards. The features
  and the evaluation sinks are optional: the watercolor and the panel notebook supply
  both.
\<close>

theorem workflows_supplied_and_run:
  assumes "watercolor_notebook fp num_samples_of = Some watercolor"
    and "panel_notebook fp seeds num_samples_of cep = Some panel"
  shows "(\<forall>tr \<in> set (notebooks watercolor panel).
            list_all (constructed_with workflow_classes
                        [kw_data, kw_training, kw_validation, kw_learners]) tr
          \<and> run_follows tr)
       \<and> list_all (constructed_with workflow_classes [kw_features, kw_evaluations]) watercolor
       \<and> list_all (constructed_with workflow_classes [kw_features, kw_evaluations]) panel"
  using bandgap_properties(1,2) friedman_properties(1,2)
    watercolor_properties(1,2,5) [OF assms(1)] panel_properties(1,2,5) [OF assms(2)]
  by (simp add: notebooks_def list_all_event_okD)

text \<open>
  An instance: with a hundred seeds and datasets of a thousand samples the watercolor and
  the panel notebook run through; their workflows and the second one of the Friedman
  notebook are such constructions.
\<close>

theorem workflows_supplied_and_run_witness:
  "\<forall>fp. \<exists>watercolor panel.
     watercolor_notebook fp (\<lambda>d. 1000) = Some watercolor
     \<and> panel_notebook fp (map int [0..<100]) (\<lambda>d. 1000) ''moldata.csv.zip'' = Some panel
     \<and> list_all (constructed_with workflow_classes
                   [kw_data, kw_training, kw_validation, kw_learners]) panel
     \<and> run_follows panel
     \<and> run_follows watercolor
     \<and> run_follows friedman_notebook
     \<and> Construct friedman_workflow_2 \<in> set friedman_notebook
     \<and> supplies [kw_data, kw_training, kw_validation, kw_learners] friedman_workflow_2"
proof
  fix fp
  have "\<exists>tr. watercolor_notebook fp (\<lambda>d. 1000) = Some tr"
    by (rule watercolor_notebook_enough) simp_all
  then obtain watercolor where w: "watercolor_notebook fp (\<lambda>d. 1000) = Some watercolor" ..
  have "\<exists>panel. panel_notebook fp (map int [0..<100]) (\<lambda>d. 1000) ''moldata.csv.zip'' = Some panel"
    by (rule panel_notebook_enough) simp_all
  then obtain panel where
    p: "panel_notebook fp (map int [0..<100]) (\<lambda>d. 1000) ''moldata.csv.zip'' = Some panel" ..
  have "Construct friedman_workflow_2 \<in> set friedman_notebook
      \<and> supplies [kw_data, kw_training, kw_validation, kw_learners] friedman_workflow_2"
    by code_simp
  with workflows_supplied_and_run [OF w p] w p
  show "\<exists>watercolor panel.
     watercolor_notebook fp (\<lambda>d. 1000) = Some watercolor
     \<and> panel_notebook fp (map int [0..<100]) (\<lambda>d. 1000) ''moldata.csv.zip'' = Some panel
     \<and> list_all (constructed_with workflow_classes
                   [kw_data, kw_training, kw_validation, kw_learners]) panel
     \<and> run_follows panel
     \<and> run_follows watercolor
     \<and> run_follows friedman_notebook
     \<and> Construct friedman_workflow_2 \<in> set friedman_notebook
     \<and> supplies [kw_data, kw_training, kw_validation, kw_learners] friedman_workflow_2"
    by (auto simp: notebooks_def)
qed




text \<open>
  C5. Every sampler instance that the notebooks construct (\<open>RandomSubsetSampler\<close>,
  \<open>GridSampler\<close>, \<open>RandomVectorSampler\<close>) is constructed with a \<open>size\<close> and a
  reproducibility seed \<open>rng\<close>. It is passed to a workflow as a training or as the
  validation sampler and to nothing else, the notebook calls no method of it, and it
  calls \<open>run()\<close> of a workflow that holds it.
\<close>

theorem samplers_sized_seeded_and_run:
  assumes "watercolor_notebook fp num_samples_of = Some watercolor"
    and "panel_notebook fp seeds num_samples_of cep = Some panel"
  shows "\<forall>tr \<in> set (notebooks watercolor panel).
            list_all (constructed_with sampler_classes [kw_size, kw_rng]) tr
          \<and> list_all (passed_only_as sampler_classes [kw_training, kw_validation]) tr
          \<and> all_used_in_run sampler_classes [kw_training, kw_validation] tr"
  using bandgap_properties(1,3) friedman_properties(1,3)
    watercolor_properties(1,3) [OF assms(1)] panel_properties(1,3) [OF assms(2)]
  by (simp add: notebooks_def list_all_event_okD)

text \<open>
  An instance: with a hundred seeds and datasets of a thousand samples the watercolor and
  the panel notebook run through; the validation grid of the Friedman notebook has a size
  and a seed and is the validation sampler of both workflows.
\<close>

theorem samplers_sized_seeded_and_run_witness:
  "\<forall>fp. \<exists>watercolor panel.
     watercolor_notebook fp (\<lambda>d. 1000) = Some watercolor
     \<and> panel_notebook fp (map int [0..<100]) (\<lambda>d. 1000) ''moldata.csv.zip'' = Some panel
     \<and> list_all (constructed_with sampler_classes [kw_size, kw_rng]) panel
     \<and> list_all (passed_only_as sampler_classes [kw_training, kw_validation]) panel
     \<and> all_used_in_run sampler_classes [kw_training, kw_validation] panel
     \<and> all_used_in_run sampler_classes [kw_training, kw_validation] watercolor
     \<and> Construct friedman_validation_set \<in> set friedman_notebook
     \<and> supplies [kw_size, kw_rng] friedman_validation_set
     \<and> passed_as friedman_notebook friedman_validation_set
         = [(LearningCurveRegression, kw_validation), (LearningCurveRegression, kw_validation)]"
proof
  fix fp
  have "\<exists>tr. watercolor_notebook fp (\<lambda>d. 1000) = Some tr"
    by (rule watercolor_notebook_enough) simp_all
  then obtain watercolor where w: "watercolor_notebook fp (\<lambda>d. 1000) = Some watercolor" ..
  have "\<exists>panel. panel_notebook fp (map int [0..<100]) (\<lambda>d. 1000) ''moldata.csv.zip'' = Some panel"
    by (rule panel_notebook_enough) simp_all
  then obtain panel where
    p: "panel_notebook fp (map int [0..<100]) (\<lambda>d. 1000) ''moldata.csv.zip'' = Some panel" ..
  have "Construct friedman_validation_set \<in> set friedman_notebook
     \<and> supplies [kw_size, kw_rng] friedman_validation_set
     \<and> passed_as friedman_notebook friedman_validation_set
         = [(LearningCurveRegression, kw_validation), (LearningCurveRegression, kw_validation)]"
    by code_simp
  with samplers_sized_seeded_and_run [OF w p] w p
  show "\<exists>watercolor panel.
     watercolor_notebook fp (\<lambda>d. 1000) = Some watercolor
     \<and> panel_notebook fp (map int [0..<100]) (\<lambda>d. 1000) ''moldata.csv.zip'' = Some panel
     \<and> list_all (constructed_with sampler_classes [kw_size, kw_rng]) panel
     \<and> list_all (passed_only_as sampler_classes [kw_training, kw_validation]) panel
     \<and> all_used_in_run sampler_classes [kw_training, kw_validation] panel
     \<and> all_used_in_run sampler_classes [kw_training, kw_validation] watercolor
     \<and> Construct friedman_validation_set \<in> set friedman_notebook
     \<and> supplies [kw_size, kw_rng] friedman_validation_set
     \<and> passed_as friedman_notebook friedman_validation_set
         = [(LearningCurveRegression, kw_validation), (LearningCurveRegression, kw_validation)]"
    by (auto simp: notebooks_def)
qed

text \<open>
  C7, as stated: every dataset instance is constructed with the keyword functions
  \<open>filter_\<close>, \<open>labelf\<close> and \<open>samplef\<close>. The dataset of the Friedman notebook is
  constructed with \<open>dimensions\<close> only, and that of the band-gap notebook with
  \<open>filter_\<close> only.
\<close>

theorem datasets_without_keyword_functions:
  "Construct friedman_dataset \<in> set friedman_notebook
   \<and> is_instance dataset_classes friedman_dataset
   \<and> keyword_names friedman_dataset = [kw_dimensions]
   \<and> Construct bandgap_bg1 \<in> set bandgap_notebook
   \<and> is_instance dataset_classes bandgap_bg1
   \<and> keyword_names bandgap_bg1 = [kw_filter]"
  by code_simp

text \<open>
  C7, amended. Every dataset instance used in the notebooks other than the synthetic
  datasets is constructed with one or more of the filter, label and sample-extraction
  keyword functions (\<open>filter_\<close>, \<open>labelf\<close>, \<open>samplef\<close>); the synthetic datasets are
  constructed with \<open>dimensions\<close> only. Every dataset exposes \<open>num_samples\<close>,
  \<open>samples()\<close> and \<open>labels()\<close>; in particular \<open>samples()\<close> and \<open>labels()\<close> yield
  sequences of equal length, which is \<open>num_samples\<close>, so that zipping them pairs every
  sample with its label.
\<close>

theorem datasets_keyword_functions_optional:
  fixes raw :: "'e list" and default_samplef :: "'e \<Rightarrow> 's" and default_labelf :: "'e \<Rightarrow> 'l"
    and filterf :: "('e \<Rightarrow> bool) option" and labelf :: "('e \<Rightarrow> 'l) option"
    and samplef :: "('e \<Rightarrow> 's) option" and which :: "selection option"
  assumes "watercolor_notebook fp num_samples_of = Some watercolor"
    and "panel_notebook fp seeds num_samples_of cep = Some panel"
  defines "ds \<equiv> new_dataset raw default_samplef default_labelf filterf labelf samplef"
  shows "(\<forall>tr \<in> set (notebooks watercolor panel).
            list_all (constructed_with_some tabulated_dataset_classes
                        [kw_filter, kw_labelf, kw_samplef]) tr
          \<and> list_all (constructed_only_with synthetic_dataset_classes [kw_dimensions]) tr)
       \<and> length (samples ds which) = length (labels ds)
       \<and> num_samples ds = int (length (samples ds which))
       \<and> map fst (zip (samples ds which) (labels ds)) = samples ds which
       \<and> map snd (zip (samples ds which) (labels ds)) = labels ds"
  using bandgap_properties(1) friedman_properties(1)
    watercolor_properties(1) [OF assms(1)] panel_properties(1) [OF assms(2)]
    dataset_lengths [of raw default_samplef default_labelf filterf labelf samplef which]
  by (simp add: notebooks_def list_all_event_okD ds_def)

text \<open>
  An instance: with a hundred seeds and datasets of a thousand samples the watercolor and
  the panel notebook run through; a dataset of the entries 1 to 4 with a filter and a
  sample function, and the default label function, has two samples, zipped with their
  labels.
\<close>

theorem datasets_keyword_functions_optional_witness:
  "\<forall>fp. \<exists>watercolor panel.
     watercolor_notebook fp (\<lambda>d. 1000) = Some watercolor
     \<and> panel_notebook fp (map int [0..<100]) (\<lambda>d. 1000) ''moldata.csv.zip'' = Some panel
     \<and> list_all (constructed_with_some tabulated_dataset_classes
                   [kw_filter, kw_labelf, kw_samplef]) panel
     \<and> list_all (constructed_with_some tabulated_dataset_classes
                   [kw_filter, kw_labelf, kw_samplef]) watercolor
     \<and> list_all (constructed_only_with synthetic_dataset_classes [kw_dimensions]) panel
     \<and> zip (samples (new_dataset [1, 2, 3, 4 :: int] (\<lambda>e. e) (\<lambda>e. e) (Some even) None (Some (\<lambda>e. e + 1)))
               (Some Select_all))
            (labels (new_dataset [1, 2, 3, 4 :: int] (\<lambda>e. e) (\<lambda>e. e) (Some even) None (Some (\<lambda>e. e + 1))))
         = [(3, 2), (5, 4)]
     \<and> num_samples (new_dataset [1, 2, 3, 4 :: int] (\<lambda>e. e) (\<lambda>e. e) (Some even) None (Some (\<lambda>e. e + 1))) = 2"
proof
  fix fp
  let ?ds = "new_dataset [1, 2, 3, 4 :: int] (\<lambda>e. e) (\<lambda>e. e) (Some even) None (Some (\<lambda>e. e + 1))"
  have "\<exists>tr. watercolor_notebook fp (\<lambda>d. 1000) = Some tr"
    by (rule watercolor_notebook_enough) simp_all
  then obtain watercolor where w: "watercolor_notebook fp (\<lambda>d. 1000) = Some watercolor" ..
  have "\<exists>panel. panel_notebook fp (map int [0..<100]) (\<lambda>d. 1000) ''moldata.csv.zip'' = Some panel"
    by (rule panel_notebook_enough) simp_all
  then obtain panel where
    p: "panel_notebook fp (map int [0..<100]) (\<lambda>d. 1000) ''moldata.csv.zip'' = Some panel" ..
  have z: "zip (samples ?ds (Some Select_all)) (labels ?ds) = [(3, 2), (5, 4)]"
    by (simp add: new_dataset_def samples_def labels_def)
  have n: "num_samples ?ds = 2"
    by (simp add: new_dataset_def num_samples_def)
  from datasets_keyword_functions_optional [OF w p,
      of "[1, 2, 3, 4 :: int]" "\<lambda>e. e" "\<lambda>e. e" "Some even" None "Some (\<lambda>e. e + 1)" "Some Select_all"]
  have "list_all (constructed_with_some tabulated_dataset_classes
                   [kw_filter, kw_labelf, kw_samplef]) panel"
    "list_all (constructed_with_some tabulated_dataset_classes
                   [kw_filter, kw_labelf, kw_samplef]) watercolor"
    "list_all (constructed_only_with synthetic_dataset_classes [kw_dimensions]) panel"
    by (simp_all add: notebooks_def)
  with w p z n show "\<exists>watercolor panel.
     watercolor_notebook fp (\<lambda>d. 1000) = Some watercolor
     \<and> panel_notebook fp (map int [0..<100]) (\<lambda>d. 1000) ''moldata.csv.zip'' = Some panel
     \<and> list_all (constructed_with_some tabulated_dataset_classes
                   [kw_filter, kw_labelf, kw_samplef]) panel
     \<and> list_all (constructed_with_some tabulated_dataset_classes
                   [kw_filter, kw_labelf, kw_samplef]) watercolor
     \<and> list_all (constructed_only_with synthetic_dataset_classes [kw_dimensions]) panel
     \<and> zip (samples ?ds (Some Select_all)) (labels ?ds) = [(3, 2), (5, 4)]
     \<and> num_samples ?ds = 2"
    by (intro exI [of _ watercolor] exI [of _ panel]) (simp only: simp_thms)
qed

end
